theory Spec2Isabelle
  imports Main "HOL-Library.Word" "HOL-Library.Multiset"
begin

unbundle bit_operations_syntax

section \<open>Strings and numbers as the TypeScript code uses them\<close>

text \<open>
  A JavaScript string is modelled by the bytes of its UTF-8 encoding (\<open>string\<close> is
  \<open>char list\<close>, a \<open>char\<close> is a byte), which is what the HMAC, the base64 encoder and
  the HTTP client consume. A \<open>number\<close> that the code only ever uses as an integer
  (page numbers, seconds, status codes, counts) is an \<open>int\<close>; \<open>null\<close> and
  \<open>undefined\<close> are \<open>None\<close>.
\<close>

type_synonym byte = "8 word"
type_synonym u32 = "32 word"

definition bytesOf :: "string \<Rightarrow> byte list" where
  "bytesOf s = map of_char s"

text \<open>
  An integer \<open>number\<close> turned into text, as the template literals
  \<^verbatim>\<open>`${headerNonce}`\<close>, the concatenations \<^verbatim>\<open>"" + now\<close> and
  \<open>JSON.stringify\<close> of a number do: decimal digits, a minus sign for a negative number.
\<close>

fun decimal :: "nat \<Rightarrow> string" where
  "decimal n =
     (if n < 10 then [char_of (48 + n)] else decimal (n div 10) @ [char_of (48 + n mod 10)])"

declare decimal.simps [simp del]

definition numberToString :: "int \<Rightarrow> string" where
  "numberToString i = (if i < 0 then CHR ''-'' # decimal (nat (- i)) else decimal (nat i))"

section \<open>The request signature (sign)\<close>

subsection \<open>SHA-256 and HMAC, as Node's crypto.createHmac('sha256', key) computes them\<close>

text \<open>
  \<open>crypto.createHmac('sha256', secretKey).update(tobeSigned)\<close> is HMAC (RFC 2104) over
  SHA-256 (FIPS 180-4) of the UTF-8 bytes of the key and of the message. Both are written
  out here, on 32-bit words, so that \<open>sign\<close> is a closed, executable function.
\<close>

definition sha256_K :: "u32 list" where
  "sha256_K =
     [0x428A2F98, 0x71374491, 0xB5C0FBCF, 0xE9B5DBA5, 0x3956C25B, 0x59F111F1,
      0x923F82A4, 0xAB1C5ED5, 0xD807AA98, 0x12835B01, 0x243185BE, 0x550C7DC3,
      0x72BE5D74, 0x80DEB1FE, 0x9BDC06A7, 0xC19BF174, 0xE49B69C1, 0xEFBE4786,
      0x0FC19DC6, 0x240CA1CC, 0x2DE92C6F, 0x4A7484AA, 0x5CB0A9DC, 0x76F988DA,
      0x983E5152, 0xA831C66D, 0xB00327C8, 0xBF597FC7, 0xC6E00BF3, 0xD5A79147,
      0x06CA6351, 0x14292967, 0x27B70A85, 0x2E1B2138, 0x4D2C6DFC, 0x53380D13,
      0x650A7354, 0x766A0ABB, 0x81C2C92E, 0x92722C85, 0xA2BFE8A1, 0xA81A664B,
      0xC24B8B70, 0xC76C51A3, 0xD192E819, 0xD6990624, 0xF40E3585, 0x106AA070,
      0x19A4C116, 0x1E376C08, 0x2748774C, 0x34B0BCB5, 0x391C0CB3, 0x4ED8AA4A,
      0x5B9CCA4F, 0x682E6FF3, 0x748F82EE, 0x78A5636F, 0x84C87814, 0x8CC70208,
      0x90BEFFFA, 0xA4506CEB, 0xBEF9A3F7, 0xC67178F2]"

type_synonym sha256_state = "u32 \<times> u32 \<times> u32 \<times> u32 \<times> u32 \<times> u32 \<times> u32 \<times> u32"

definition sha256_H0 :: sha256_state where
  "sha256_H0 =
     (0x6a09e667, 0xbb67ae85, 0x3c6ef372, 0xa54ff53a,
      0x510e527f, 0x9b05688c, 0x1f83d9ab, 0x5be0cd19)"

definition rotr :: "nat \<Rightarrow> u32 \<Rightarrow> u32" where
  "rotr n x = drop_bit n x OR push_bit (32 - n) x"

definition ch :: "u32 \<Rightarrow> u32 \<Rightarrow> u32 \<Rightarrow> u32" where
  "ch x y z = (x AND y) XOR (NOT x AND z)"

definition maj :: "u32 \<Rightarrow> u32 \<Rightarrow> u32 \<Rightarrow> u32" where
  "maj x y z = (x AND y) XOR (x AND z) XOR (y AND z)"

definition bsig0 :: "u32 \<Rightarrow> u32" where
  "bsig0 x = rotr 2 x XOR rotr 13 x XOR rotr 22 x"

definition bsig1 :: "u32 \<Rightarrow> u32" where
  "bsig1 x = rotr 6 x XOR rotr 11 x XOR rotr 25 x"

definition ssig0 :: "u32 \<Rightarrow> u32" where
  "ssig0 x = rotr 7 x XOR rotr 18 x XOR drop_bit 3 x"

definition ssig1 :: "u32 \<Rightarrow> u32" where
  "ssig1 x = rotr 17 x XOR rotr 19 x XOR drop_bit 10 x"

definition be64 :: "nat \<Rightarrow> byte list" where
  "be64 n = map (\<lambda>i. ucast (drop_bit (8 * (7 - i)) (word_of_nat n :: 64 word))) [0..<8]"

definition sha256_pad :: "byte list \<Rightarrow> byte list" where
  "sha256_pad m =
     m @ [0x80] @ replicate ((119 - length m mod 64) mod 64) 0 @ be64 (8 * length m)"

definition be32 :: "byte list \<Rightarrow> u32" where
  "be32 bs = foldl (\<lambda>acc b. push_bit 8 acc OR ucast b) 0 bs"

definition be32_bytes :: "u32 \<Rightarrow> byte list" where
  "be32_bytes w = [ucast (drop_bit 24 w), ucast (drop_bit 16 w), ucast (drop_bit 8 w), ucast w]"

definition sha256_blocks :: "byte list \<Rightarrow> u32 list list" where
  "sha256_blocks bs =
     map (\<lambda>i. map (\<lambda>j. be32 (take 4 (drop (64 * i + 4 * j) bs))) [0..<16])
       [0..<length bs div 64]"

fun sha256_extend :: "nat \<Rightarrow> u32 list \<Rightarrow> u32 list" where
  "sha256_extend 0 w = w"
| "sha256_extend (Suc k) w =
     sha256_extend k
       (w @ [ssig1 (w ! (length w - 2)) + w ! (length w - 7)
             + ssig0 (w ! (length w - 15)) + w ! (length w - 16)])"

fun sha256_round :: "sha256_state \<Rightarrow> u32 \<times> u32 \<Rightarrow> sha256_state" where
  "sha256_round (a, b, c, d, e, f, g, h) (k, w) =
     (let t1 = h + bsig1 e + ch e f g + k + w;
          t2 = bsig0 a + maj a b c
      in (t1 + t2, a, b, c, d + t1, e, f, g))"

fun sha256_add :: "sha256_state \<Rightarrow> sha256_state \<Rightarrow> sha256_state" where
  "sha256_add (a, b, c, d, e, f, g, h) (a', b', c', d', e', f', g', h') =
     (a + a', b + b', c + c', d + d', e + e', f + f', g + g', h + h')"

definition sha256_compress :: "sha256_state \<Rightarrow> u32 list \<Rightarrow> sha256_state" where
  "sha256_compress s blk =
     sha256_add s (foldl sha256_round s (zip sha256_K (sha256_extend 48 blk)))"

fun sha256_digest :: "sha256_state \<Rightarrow> byte list" where
  "sha256_digest (a, b, c, d, e, f, g, h) = concat (map be32_bytes [a, b, c, d, e, f, g, h])"

definition sha256 :: "byte list \<Rightarrow> byte list" where
  "sha256 m = sha256_digest (foldl sha256_compress sha256_H0 (sha256_blocks (sha256_pad m)))"

definition hmac_sha256 :: "byte list \<Rightarrow> byte list \<Rightarrow> byte list" where
  "hmac_sha256 key msg =
     (let k0 = (if 64 < length key then sha256 key else key);
          k = k0 @ replicate (64 - length k0) 0
      in sha256 (map (\<lambda>b. b XOR 0x5c) k @ sha256 (map (\<lambda>b. b XOR 0x36) k @ msg)))"

subsection \<open>Hexadecimal and base64 text\<close>

text \<open>
  \<open>.digest('hex')\<close> writes each byte of the MAC as two lowercase hexadecimal digits;
  \<open>Buffer.from(signature, "utf8").toString('base64')\<close> encodes the bytes of that text in
  base64 (RFC 4648, with \<open>=\<close> padding).
\<close>

definition hexDigit :: "nat \<Rightarrow> char" where
  "hexDigit d = ''0123456789abcdef'' ! d"

definition hex :: "byte list \<Rightarrow> string" where
  "hex bs = concat (map (\<lambda>b. [hexDigit (unat b div 16), hexDigit (unat b mod 16)]) bs)"

definition b64 :: "nat \<Rightarrow> char" where
  "b64 i = ''ABCDEFGHIJKLMNOPQRSTUVWXYZabcdefghijklmnopqrstuvwxyz0123456789+/'' ! i"

fun base64 :: "byte list \<Rightarrow> string" where
  "base64 [] = []"
| "base64 [a] = [b64 (unat a div 4), b64 (unat a mod 4 * 16), CHR ''='', CHR ''='']"
| "base64 [a, b] =
     [b64 (unat a div 4), b64 (unat a mod 4 * 16 + unat b div 16), b64 (unat b mod 16 * 4),
      CHR ''='']"
| "base64 (a # b # c # rest) =
     [b64 (unat a div 4), b64 (unat a mod 4 * 16 + unat b div 16),
      b64 (unat b mod 16 * 4 + unat c div 64), b64 (unat c mod 64)] @ base64 rest"

subsection \<open>sign\<close>

text \<open>
  \<^verbatim>\<open>
  const tobeSigned = `${httpMethod}\nX-TC-Key=${secretId}&X-TC-Nonce=${headerNonce}
                      &X-TC-Timestamp=${headerTimestamp}` + `\n${requestUri}\n${requestBody}`;
  const signature = crypto.createHmac('sha256', secretKey).update(tobeSigned).digest('hex');
  return Buffer.from(signature, "utf8").toString('base64');
  \<close>
  (the first template literal has no line break in the source).
\<close>

definition tobeSigned ::
  "string \<Rightarrow> string \<Rightarrow> int \<Rightarrow> int \<Rightarrow> string \<Rightarrow> string \<Rightarrow> string" where
  "tobeSigned secretId httpMethod headerNonce headerTimestamp requestUri requestBody =
     httpMethod @ [CHR 0x0A] @ ''X-TC-Key='' @ secretId @ ''&X-TC-Nonce=''
       @ numberToString headerNonce @ ''&X-TC-Timestamp='' @ numberToString headerTimestamp
       @ [CHR 0x0A] @ requestUri @ [CHR 0x0A] @ requestBody"

definition sign ::
  "string \<Rightarrow> string \<Rightarrow> string \<Rightarrow> int \<Rightarrow> int \<Rightarrow> string \<Rightarrow> string \<Rightarrow> string" where
  "sign secretId secretKey httpMethod headerNonce headerTimestamp requestUri requestBody =
     (let signature =
            hex (hmac_sha256 (bytesOf secretKey)
                   (bytesOf (tobeSigned secretId httpMethod headerNonce headerTimestamp
                               requestUri requestBody)))
      in base64 (bytesOf signature))"

text \<open>
  The canonical string as the specification words it: the method, a newline, the header
  string \<open>X-TC-Key=<secretId>&X-TC-Nonce=<nonce>&X-TC-Timestamp=<timestamp>\<close>, a newline,
  the request path with its query, a newline, the request body.
\<close>

definition headerString :: "string \<Rightarrow> int \<Rightarrow> int \<Rightarrow> string" where
  "headerString secretId nonce timestamp =
     concat [''X-TC-Key='', secretId, ''&X-TC-Nonce='', numberToString nonce,
             ''&X-TC-Timestamp='', numberToString timestamp]"

definition canonicalString ::
  "string \<Rightarrow> string \<Rightarrow> int \<Rightarrow> int \<Rightarrow> string \<Rightarrow> string \<Rightarrow> string" where
  "canonicalString secretId httpMethod nonce timestamp pathWithQuery body =
     concat [httpMethod, [CHR 0x0A], headerString secretId nonce timestamp, [CHR 0x0A],
             pathWithQuery, [CHR 0x0A], body]"

section \<open>JSON values, JSON.stringify, zod schemas and qs.stringify\<close>

text \<open>
  A JSON value as \<open>JSON.parse\<close> yields it. An object is the list of its properties in
  order, with distinct keys; \<open>getProp\<close> is the property access \<open>obj.key\<close>, which is
  \<open>undefined\<close> (\<open>None\<close>) where the property is absent.
\<close>

datatype json =
    JNull
  | JBool bool
  | JNum int
  | JStr string
  | JArr "json list"
  | JObj "(string \<times> json) list"

definition getProp :: "json \<Rightarrow> string \<Rightarrow> json option" where
  "getProp j k = (case j of JObj kvs \<Rightarrow> map_of kvs k | _ \<Rightarrow> None)"

fun joinWith :: "string \<Rightarrow> string list \<Rightarrow> string" where
  "joinWith sep [] = []"
| "joinWith sep [x] = x"
| "joinWith sep (x # y # ys) = x @ sep @ joinWith sep (y # ys)"

text \<open>
  \<open>JSON.stringify\<close> without indentation: a string is quoted, with the quote, the
  backslash and the control characters escaped.
\<close>

definition jsonEscape :: "char \<Rightarrow> string" where
  "jsonEscape c =
     (if c = CHR 0x22 then [CHR 0x5C, CHR 0x22]
      else if c = CHR 0x5C then [CHR 0x5C, CHR 0x5C]
      else if c = CHR 0x08 then [CHR 0x5C, CHR ''b'']
      else if c = CHR 0x0C then [CHR 0x5C, CHR ''f'']
      else if c = CHR 0x0A then [CHR 0x5C, CHR ''n'']
      else if c = CHR 0x0D then [CHR 0x5C, CHR ''r'']
      else if c = CHR 0x09 then [CHR 0x5C, CHR ''t'']
      else if (of_char c :: nat) < 32 then
        [CHR 0x5C, CHR ''u'', CHR ''0'', CHR ''0'', hexDigit (of_char c div 16),
         hexDigit (of_char c mod 16)]
      else [c])"

definition quoteJSONString :: "string \<Rightarrow> string" where
  "quoteJSONString s = [CHR 0x22] @ concat (map jsonEscape s) @ [CHR 0x22]"

fun JSON_stringify :: "json \<Rightarrow> string" where
  "JSON_stringify JNull = ''null''"
| "JSON_stringify (JBool b) = (if b then ''true'' else ''false'')"
| "JSON_stringify (JNum n) = numberToString n"
| "JSON_stringify (JStr s) = quoteJSONString s"
| "JSON_stringify (JArr xs) = ''['' @ joinWith '','' (map JSON_stringify xs) @ '']''"
| "JSON_stringify (JObj kvs) =
     ''{'' @ joinWith '','' (map (\<lambda>(k, v). quoteJSONString k @ '':'' @ JSON_stringify v) kvs)
       @ ''}''"

text \<open>
  The zod schemas the client uses: \<open>z.string()\<close>, \<open>z.string().url()\<close>,
  \<open>z.number()\<close>, \<open>z.boolean()\<close>, \<open>z.array(s)\<close>, \<open>z.object({...})\<close> and
  \<open>s.optional()\<close>. \<open>zparse\<close> is \<open>schema.parse\<close>: \<open>None\<close> where zod throws its
  validation error, otherwise the parsed value. An object schema keeps the properties it
  names, in its own order, and strips every other; a property that is absent is accepted
  only where its schema is optional. What \<open>.url()\<close> accepts is decided by the platform's
  URL parser: the parameter \<open>isUrl\<close>.
\<close>

datatype zod =
    ZString
  | ZStringUrl
  | ZNumber
  | ZBoolean
  | ZArray zod
  | ZObject "(string \<times> zod) list"
  | ZOptional zod

fun isOptional :: "zod \<Rightarrow> bool" where
  "isOptional (ZOptional s) = True"
| "isOptional s = False"

fun zparse :: "(string \<Rightarrow> bool) \<Rightarrow> zod \<Rightarrow> json \<Rightarrow> json option" where
  "zparse isUrl ZString (JStr s) = Some (JStr s)"
| "zparse isUrl ZStringUrl (JStr s) = (if isUrl s then Some (JStr s) else None)"
| "zparse isUrl ZNumber (JNum n) = Some (JNum n)"
| "zparse isUrl ZBoolean (JBool b) = Some (JBool b)"
| "zparse isUrl (ZArray s) (JArr xs) = map_option JArr (those (map (zparse isUrl s) xs))"
| "zparse isUrl (ZObject shape) (JObj kvs) =
     map_option (\<lambda>fs. JObj (List.map_filter id fs))
       (those (map (\<lambda>(k, s).
                 case map_of kvs k of
                   None \<Rightarrow> if isOptional s then Some None else None
                 | Some v \<Rightarrow> map_option (\<lambda>r. Some (k, r)) (zparse isUrl s v)) shape))"
| "zparse isUrl (ZOptional s) v = zparse isUrl s v"
| "zparse isUrl s v = None"

text \<open>
  \<open>qs.stringify\<close> of a flat record of strings and numbers, with its default options:
  \<open>key=value\<close> pairs joined by \<open>&\<close>, keys and values percent-encoded byte by byte
  (uppercase hexadecimal) except letters, digits and \<open>- . _ ~\<close>.
\<close>

datatype qvalue = QStr string | QNum int

definition qsUnreserved :: "char \<Rightarrow> bool" where
  "qsUnreserved c =
     (c \<in> set ''-._~''
      \<or> (48 \<le> (of_char c :: nat) \<and> (of_char c :: nat) \<le> 57)
      \<or> (65 \<le> (of_char c :: nat) \<and> (of_char c :: nat) \<le> 90)
      \<or> (97 \<le> (of_char c :: nat) \<and> (of_char c :: nat) \<le> 122))"

definition upperHexDigit :: "nat \<Rightarrow> char" where
  "upperHexDigit d = ''0123456789ABCDEF'' ! d"

definition qsEncode :: "string \<Rightarrow> string" where
  "qsEncode s =
     concat (map (\<lambda>c. if qsUnreserved c then [c]
                       else [CHR ''%'', upperHexDigit (of_char c div 16),
                             upperHexDigit (of_char c mod 16)]) s)"

fun qsText :: "qvalue \<Rightarrow> string" where
  "qsText (QStr s) = s"
| "qsText (QNum n) = numberToString n"

definition qs_stringify :: "(string \<times> qvalue) list \<Rightarrow> string" where
  "qs_stringify query =
     joinWith ''&'' (map (\<lambda>(k, v). qsEncode k @ ''='' @ qsEncode (qsText v)) query)"

section \<open>The Tencent Meeting client (TencentMeeting.ts)\<close>

subsection \<open>Errors\<close>

text \<open>
  What the client can throw: a \<open>TRPCError\<close> (its code, message and cause), zod's
  validation error, a \<open>TypeError\<close>, and whatever the HTTP client rejects with. Of the
  latter the catch block of \<open>tmRequest\<close> reads two properties, \<open>error.response\<close> and
  \<open>error.data\<close>: \<open>Rejection r d\<close> is a rejection whose \<open>response\<close> is \<open>r\<close> and whose
  own \<open>data\<close> property is \<open>d\<close>. An error of axios carries the provider's answer, when
  there is one, in \<open>response\<close> (status and payload) and has no \<open>data\<close> property of its
  own, so it is \<open>Rejection r None\<close>.
\<close>

datatype trpc_code = METHOD_NOT_SUPPORTED | BAD_REQUEST | NOT_FOUND

record axios_response =
  status :: int
  data :: json

datatype js_error =
    TRPCError trpc_code string "json option"
  | ZodError
  | TypeError
  | Rejection "axios_response option" "json option"

fun error_response :: "js_error \<Rightarrow> axios_response option" where
  "error_response (Rejection r d) = r"
| "error_response e = None"

fun error_data :: "js_error \<Rightarrow> json option" where
  "error_data (Rejection r d) = d"
| "error_data e = None"

definition paginationNotSupported :: js_error where
  "paginationNotSupported =
     TRPCError METHOD_NOT_SUPPORTED ''Pagination isn't supported'' None"

definition failedRequest :: "int \<Rightarrow> json option \<Rightarrow> js_error" where
  "failedRequest statusCode d =
     TRPCError BAD_REQUEST
       (''Tencent Meeting Rest API request failed, status Code:'' @ numberToString statusCode) d"

definition undefinedResponse :: js_error where
  "undefinedResponse =
     TRPCError NOT_FOUND ''Response data is undefined''
       (Some (JStr ''check validties of Tencent Meeting API inputs''))"

subsection \<open>The environment and the effects of a call\<close>

text \<open>
  The client reads the credentials of \<open>apiEnv\<close>, the clock (\<open>Date.now()\<close>, in
  milliseconds), the random source and the answers of the provider, and it writes to the
  network, to Sentry and to the console. The environment fixes what is read: the value
  of the \<open>k\<close>-th call of \<open>Date.now()\<close>, the value of
  \<open>Math.floor(Math.random() * 100000)\<close> at the \<open>k\<close>-th draw, and the outcome of the
  \<open>k\<close>-th HTTP request (axios resolves with a response or rejects with an error). The
  world counts the reads and records the writes, in order: \<open>captured\<close> holds the
  argument of every call of \<open>Sentry.captureException\<close>, \<open>reported\<close> the events the
  Sentry SDK sends to the monitoring service.

  The options object passed to axios has the properties \<open>method\<close>, \<open>url\<close> and
  \<open>headers\<close>; \<open>data\<close>, the property axios sends as the request body, is the fourth
  field of \<open>axios_config\<close>, \<open>None\<close> where the options do not set it.
\<close>

datatype http_method = POST | GET

fun methodText :: "http_method \<Rightarrow> string" where
  "methodText POST = ''POST''"
| "methodText GET = ''GET''"

record axios_config =
  cfg_method :: http_method
  cfg_url :: string
  cfg_headers :: "(string \<times> string) list"
  cfg_data :: "json option"

record env =
  TM_SECRET_ID :: string
  TM_SECRET_KEY :: string
  TM_ENTERPRISE_ID :: string
  TM_APP_ID :: string
  Date_now :: "nat \<Rightarrow> int"
  Math_random :: "nat \<Rightarrow> nat"
  axios :: "nat \<Rightarrow> axios_config \<Rightarrow> js_error + axios_response"
  isUrl :: "string \<Rightarrow> bool"

record world =
  ticks :: nat
  draws :: nat
  requests :: "axios_config list"
  captured :: "js_error list"
  reported :: "js_error list"
  console :: "string list"

definition LOG_HEADER :: string where
  "LOG_HEADER = ''[TecentMeeting]''"

definition console_log :: "string \<Rightarrow> string \<Rightarrow> world \<Rightarrow> world" where
  "console_log a b w = w\<lparr>console := console w @ [a @ '' '' @ b]\<rparr>"

text \<open>
  An error is an object, and the Sentry SDK (7.x, \<open>next.config.js\<close>) marks an error
  object it has captured: a later capture of the same object is dropped and sends no
  second event. An error object is its value and that mark; \<open>new_error\<close> is an object
  just created (by \<open>new TRPCError\<close>, or by axios for a rejection), not yet marked.
  \<open>Sentry.captureException\<close> records the call, and reports the error and marks the
  object unless the object is marked already; it returns the object as it has left it.
\<close>

record error_object =
  error_value :: js_error
  sentry_captured :: bool

definition new_error :: "js_error \<Rightarrow> error_object" where
  "new_error e = \<lparr>error_value = e, sentry_captured = False\<rparr>"

definition Sentry_captureException :: "error_object \<Rightarrow> world \<Rightarrow> error_object \<times> world" where
  "Sentry_captureException error w =
     (if sentry_captured error
      then (error, w\<lparr>captured := captured w @ [error_value error]\<rparr>)
      else (error\<lparr>sentry_captured := True\<rparr>,
            w\<lparr>captured := captured w @ [error_value error],
              reported := reported w @ [error_value error]\<rparr>))"

subsection \<open>tmRequest\<close>

text \<open>
  The options \<open>tmRequest\<close> hands to axios, from its arguments, the millisecond clock
  value it read and the nonce it drew (lines 30 to 61 and the call at lines 64 to 68):
  \<^verbatim>\<open>axios({ method, url, headers })\<close>.
\<close>

definition tmRequest_config ::
  "env \<Rightarrow> http_method \<Rightarrow> string \<Rightarrow> (string \<times> qvalue) list \<Rightarrow> json \<Rightarrow> int \<Rightarrow> nat
     \<Rightarrow> axios_config" where
  "tmRequest_config env method requestUri query body clock drawn =
     (let now = clock div 1000;
          hasQuery = (0 < length query);
          pathWithQuery = requestUri @ (if hasQuery then ''?'' @ qs_stringify query else []);
          url = ''https://api.meeting.qq.com'' @ pathWithQuery;
          nonce = int drawn;
          bodyText = (if method = GET then [] else JSON_stringify body);
          signature = sign (TM_SECRET_ID env) (TM_SECRET_KEY env) (methodText method) nonce now
                        pathWithQuery bodyText;
          headers =
            [(''Content-Type'', ''application/json''),
             (''X-TC-Key'', TM_SECRET_ID env),
             (''AppId'', TM_ENTERPRISE_ID env),
             (''SdkId'', TM_APP_ID env),
             (''X-TC-Timestamp'', numberToString now),
             (''X-TC-Nonce'', numberToString nonce),
             (''X-TC-Signature'', signature),
             (''X-TC-Registered'', ''1'')]
      in \<lparr>cfg_method = method, cfg_url = url, cfg_headers = headers, cfg_data = None\<rparr>)"

text \<open>
  The catch block (lines 79 to 89): an error with a truthy \<open>response\<close> becomes
  \<open>failedRequest(error.response.status, error.data)\<close>, any other error is thrown again as
  it is; either way the error thrown is first given to Sentry.
\<close>

definition tmRequest_catch :: "error_object \<Rightarrow> world \<Rightarrow> (js_error + json) \<times> world" where
  "tmRequest_catch error w =
     (case error_response (error_value error) of
        Some response \<Rightarrow>
          (let e = new_error (failedRequest (status response) (error_data (error_value error)))
           in case Sentry_captureException e w of (e', w') \<Rightarrow> (Inl (error_value e'), w'))
      | None \<Rightarrow>
          (case Sentry_captureException error w of
             (error', w') \<Rightarrow> (Inl (error_value error'), w')))"

text \<open>
  The whole call. The try block (lines 63 to 77) awaits axios; a rejection goes to the
  catch block, and so does the error that the try block itself throws when the answer
  serializes to \<open>{}\<close>, after it has given that error to Sentry: the catch block
  receives the very object the try block has captured.
\<close>

definition tmRequest ::
  "env \<Rightarrow> http_method \<Rightarrow> string \<Rightarrow> (string \<times> qvalue) list \<Rightarrow> json \<Rightarrow> world
     \<Rightarrow> (js_error + json) \<times> world" where
  "tmRequest env method requestUri query body w =
     (let config = tmRequest_config env method requestUri query body
                     (Date_now env (ticks w)) (Math_random env (draws w));
          w1 = w\<lparr>ticks := ticks w + 1, draws := draws w + 1, requests := requests w @ [config]\<rparr>
      in case axios env (length (requests w)) config of
           Inr response \<Rightarrow>
             if JSON_stringify (data response) = ''{}'' then
               (let error = new_error undefinedResponse
                in case Sentry_captureException error w1 of
                     (error', w2) \<Rightarrow> tmRequest_catch error' w2)
             else (Inr (data response), w1)
         | Inl error \<Rightarrow> tmRequest_catch (new_error error) w1)"

text \<open>\<open>zRes.parse(await tmRequest(...))\<close>: an error of the request propagates.\<close>

definition zod_parse ::
  "env \<Rightarrow> zod \<Rightarrow> (js_error + json) \<times> world \<Rightarrow> (js_error + json) \<times> world" where
  "zod_parse env schema r =
     (case r of
        (Inl e, w) \<Rightarrow> (Inl e, w)
      | (Inr res, w) \<Rightarrow>
          (case zparse (isUrl env) schema res of
             None \<Rightarrow> (Inl ZodError, w)
           | Some v \<Rightarrow> (Inr v, w)))"

subsection \<open>createMeeting\<close>

definition createMeeting_zRes :: zod where
  "createMeeting_zRes =
     ZObject
       [(''meeting_number'', ZNumber),
        (''meeting_info_list'', ZArray (ZObject
           [(''subject'', ZString),
            (''meeting_id'', ZString),
            (''meeting_code'', ZString),
            (''type'', ZNumber),
            (''join_url'', ZStringUrl),
            (''hosts'', ZArray (ZObject [(''userid'', ZString)])),
            (''start_time'', ZString),
            (''end_time'', ZString),
            (''settings'', ZObject
               [(''mute_enable_join'', ZBoolean),
                (''allow_unmute_self'', ZBoolean),
                (''mute_all'', ZBoolean),
                (''mute_enable_type_join'', ZNumber)]),
            (''meeting_type'', ZNumber),
            (''enable_live'', ZBoolean),
            (''media_set_type'', ZNumber),
            (''location'', ZString),
            (''host_key'', ZOptional ZString)]))]"

definition createMeeting_body :: "string \<Rightarrow> string \<Rightarrow> int \<Rightarrow> int \<Rightarrow> json" where
  "createMeeting_body tmUserId subject startTimeSecond endTimeSecond =
     JObj [(''userid'', JStr tmUserId),
           (''instanceid'', JStr ''1''),
           (''subject'', JStr subject),
           (''start_time'', JStr (numberToString startTimeSecond)),
           (''end_time'', JStr (numberToString endTimeSecond)),
           (''type'', JStr ''0'')]"

definition createMeeting ::
  "env \<Rightarrow> string \<Rightarrow> string \<Rightarrow> int \<Rightarrow> int \<Rightarrow> world \<Rightarrow> (js_error + json) \<times> world" where
  "createMeeting env tmUserId subject startTimeSecond endTimeSecond w =
     (let w0 = console_log LOG_HEADER
                 (''createMeeting('' @ [CHR 0x27] @ subject @ [CHR 0x27] @ '', ''
                    @ numberToString startTimeSecond @ '', '' @ numberToString endTimeSecond
                    @ '')'') w
      in zod_parse env createMeeting_zRes
           (tmRequest env POST ''/v1/meetings'' []
              (createMeeting_body tmUserId subject startTimeSecond endTimeSecond) w0))"

subsection \<open>getMeeting\<close>

definition getMeeting_zRes :: zod where
  "getMeeting_zRes =
     ZObject
       [(''meeting_number'', ZNumber),
        (''meeting_info_list'', ZArray (ZObject
           [(''subject'', ZString),
            (''meeting_id'', ZString),
            (''meeting_code'', ZString),
            (''status'', ZString),
            (''join_url'', ZString),
            (''start_time'', ZString),
            (''end_time'', ZString)]))]"

text \<open>
  \<open>zRes.parse(...).meeting_info_list[0]\<close>: the first element, \<open>undefined\<close> (\<open>None\<close>)
  for an empty array. Indexing a value that is no array cannot happen after the parse; the
  model makes it a \<open>TypeError\<close>.
\<close>

definition getMeeting ::
  "env \<Rightarrow> string \<Rightarrow> string \<Rightarrow> world \<Rightarrow> (js_error + json option) \<times> world" where
  "getMeeting env meetingId tmUserId w =
     (let w0 = console_log LOG_HEADER ''listMeetings()'' w
      in case zod_parse env getMeeting_zRes
                (tmRequest env GET (''/v1/meetings/'' @ meetingId)
                   [(''userid'', QStr tmUserId), (''instanceid'', QStr ''1'')] (JObj []) w0) of
           (Inl e, w') \<Rightarrow> (Inl e, w')
         | (Inr res, w') \<Rightarrow>
             (case getProp res ''meeting_info_list'' of
                Some (JArr []) \<Rightarrow> (Inr None, w')
              | Some (JArr (m # ms)) \<Rightarrow> (Inr (Some m), w')
              | _ \<Rightarrow> (Inl TypeError, w')))"

subsection \<open>listRecords\<close>

definition zRecordMeetings :: zod where
  "zRecordMeetings =
     ZObject
       [(''meeting_record_id'', ZString),
        (''subject'', ZString),
        (''state'', ZNumber),
        (''record_files'', ZOptional (ZArray (ZObject
           [(''record_file_id'', ZString),
            (''record_start_time'', ZNumber),
            (''record_end_time'', ZNumber)])))]"

definition listRecords_zRes :: zod where
  "listRecords_zRes =
     ZObject
       [(''total_count'', ZNumber),
        (''total_page'', ZNumber),
        (''record_meetings'', ZOptional (ZArray zRecordMeetings))]"

text \<open>
  \<open>Math.trunc(a / b)\<close> on integers rounds towards zero. The start of the window,
  \<open>Math.trunc(Date.now() / 1000 - 31 * 24 * 3600)\<close>, is
  \<open>Math_trunc_div (Date.now() - 31 * 24 * 3600 * 1000) 1000\<close>.
\<close>

definition Math_trunc_div :: "int \<Rightarrow> int \<Rightarrow> int" where
  "Math_trunc_div a b = sgn a * sgn b * (\<bar>a\<bar> div \<bar>b\<bar>)"

text \<open>
  The query of one page request. Its properties are evaluated in order, so the clock is
  read for \<open>start_time\<close> first (the read number \<open>tick\<close>) and for \<open>end_time\<close> next.
\<close>

definition listRecords_query :: "env \<Rightarrow> string \<Rightarrow> nat \<Rightarrow> int \<Rightarrow> (string \<times> qvalue) list" where
  "listRecords_query env tmUserId tick page =
     [(''userid'', QStr tmUserId),
      (''start_time'', QStr (JSON_stringify (JNum
          (Math_trunc_div (Date_now env tick - 31 * 24 * 3600 * 1000) 1000)))),
      (''end_time'', QStr (JSON_stringify (JNum (Math_trunc_div (Date_now env (tick + 1)) 1000)))),
      (''page_size'', QNum 20),
      (''page'', QNum page)]"

text \<open>One turn of the loop up to the parse: \<open>zRes.parse(await tmRequest('GET', ...))\<close>.\<close>

definition listRecords_page ::
  "env \<Rightarrow> string \<Rightarrow> int \<Rightarrow> world \<Rightarrow> (js_error + json) \<times> world" where
  "listRecords_page env tmUserId page w =
     zod_parse env listRecords_zRes
       (tmRequest env GET ''/v1/records'' (listRecords_query env tmUserId (ticks w) page)
          (JObj []) (w\<lparr>ticks := ticks w + 2\<rparr>))"

text \<open>
  \<open>res.record_meetings || []\<close> and \<open>page >= res.total_page\<close>. A comparison with a
  value that is no number is false in JavaScript; after the parse \<open>total_page\<close> is a
  number.
\<close>

definition record_meetings_or_empty :: "json \<Rightarrow> json list" where
  "record_meetings_or_empty res =
     (case getProp res ''record_meetings'' of Some (JArr ms) \<Rightarrow> ms | _ \<Rightarrow> [])"

definition page_ge_total_page :: "int \<Rightarrow> json \<Rightarrow> bool" where
  "page_ge_total_page page res =
     (case getProp res ''total_page'' of Some (JNum n) \<Rightarrow> n \<le> page | _ \<Rightarrow> False)"

text \<open>
  The loop \<open>while (true) { ...; if (page >= res.total_page) break; page++; }\<close>. Nothing
  bounds the number of turns, so the loop is a partial function: \<open>None\<close> is the loop that
  never returns.
\<close>

partial_function (option) listRecords_loop ::
  "env \<Rightarrow> string \<Rightarrow> json list \<Rightarrow> int \<Rightarrow> world \<Rightarrow> ((js_error + json list) \<times> world) option"
where
  "listRecords_loop env tmUserId ret page w =
     (case listRecords_page env tmUserId page w of
        (Inl e, w') \<Rightarrow> Some (Inl e, w')
      | (Inr res, w') \<Rightarrow>
          (if page_ge_total_page page res
           then Some (Inr (ret @ record_meetings_or_empty res), w')
           else listRecords_loop env tmUserId (ret @ record_meetings_or_empty res)
                  (page + 1) w'))"

declare listRecords_loop.simps [code]

definition listRecords ::
  "env \<Rightarrow> string \<Rightarrow> world \<Rightarrow> ((js_error + json list) \<times> world) option" where
  "listRecords env tmUserId w =
     listRecords_loop env tmUserId [] 1 (console_log LOG_HEADER ''listRecords()'' w)"

text \<open>
  For the statement of what \<open>listRecords\<close> does: the options of the page request
  that reads the clock from the read number \<open>tick\<close> on and draws the nonce number
  \<open>draw\<close>, and the records the provider returns to the \<open>k\<close>-th request of the call
  (\<open>res.record_meetings || []\<close> of its parsed answer).
\<close>

definition listRecords_request :: "env \<Rightarrow> string \<Rightarrow> nat \<Rightarrow> nat \<Rightarrow> int \<Rightarrow> axios_config" where
  "listRecords_request env tmUserId tick draw page =
     tmRequest_config env GET ''/v1/records'' (listRecords_query env tmUserId tick page)
       (JObj []) (Date_now env (tick + 2)) (Math_random env draw)"

definition listRecords_answer :: "env \<Rightarrow> nat \<Rightarrow> axios_config \<Rightarrow> json list" where
  "listRecords_answer env k cfg =
     (case axios env k cfg of
        Inr resp \<Rightarrow>
          (case zparse (isUrl env) listRecords_zRes (data resp) of
             Some res \<Rightarrow> record_meetings_or_empty res
           | None \<Rightarrow> [])
      | Inl e \<Rightarrow> [])"

text \<open>
  The provider of the specification's property, in the specification's words: one that
  reports \<open>total_page = N\<close> on every response (a response that passes the schema of
  \<open>listRecords\<close>).
\<close>

definition reportsTotalPage :: "env \<Rightarrow> int \<Rightarrow> bool" where
  "reportsTotalPage env N \<longleftrightarrow>
     (\<forall>k cfg. \<exists>resp res.
        axios env k cfg = Inr resp
        \<and> zparse (isUrl env) listRecords_zRes (data resp) = Some res
        \<and> getProp res ''total_page'' = Some (JNum N))"

subsection \<open>getRecordURLs\<close>

definition getRecordURLs_zRes :: zod where
  "getRecordURLs_zRes =
     ZObject
       [(''total_page'', ZNumber),
        (''record_files'', ZArray (ZObject
           [(''record_file_id'', ZString),
            (''meeting_summary'', ZOptional (ZArray (ZObject
               [(''download_address'', ZStringUrl),
                (''file_type'', ZString)])))]))]"

definition getRecordURLs ::
  "env \<Rightarrow> string \<Rightarrow> string \<Rightarrow> world \<Rightarrow> (js_error + json) \<times> world" where
  "getRecordURLs env meetingRecordId tmUserId w =
     (let w0 = console_log LOG_HEADER
                 (''getRecordURLs('' @ [CHR 0x22] @ meetingRecordId @ [CHR 0x22] @ '')'') w
      in case zod_parse env getRecordURLs_zRes
                (tmRequest env GET ''/v1/addresses''
                   [(''meeting_record_id'', QStr meetingRecordId), (''userid'', QStr tmUserId)]
                   (JObj []) w0) of
           (Inl e, w') \<Rightarrow> (Inl e, w')
         | (Inr res, w') \<Rightarrow>
             (if getProp res ''total_page'' \<noteq> Some (JNum 1)
              then (Inl paginationNotSupported, w')
              else (Inr res, w')))"

section \<open>The Group model (Group.ts)\<close>

text \<open>
  The rows of the three tables the hook touches. \<open>Group\<close> has the columns of the
  source: the primary key and the nullable \<open>name\<close>, \<open>meetingLink\<close> and
  \<open>partnershipId\<close>.
\<close>

record group =
  group_id :: string
  group_name :: "string option"
  group_meetingLink :: "string option"
  group_partnershipId :: "string option"

text \<open>
  Modelled from the spec: the models \<open>GroupUser\<close> and \<open>Transcript\<close> are not among
  the sources; the hook uses their primary key and their \<open>groupId\<close> column (the
  specification's GroupUser and Transcript rows associated with a Group), and nothing else.
\<close>

record group_user =
  groupUser_id :: string
  groupUser_groupId :: string

record transcript =
  transcript_id :: string
  transcript_groupId :: string

text \<open>
  The database: the rows of each table, and a journal of the rows removed, in the order
  in which the removals took effect.
\<close>

datatype row_ref = GroupRow string | GroupUserRow string | TranscriptRow string

record database =
  groups :: "group list"
  groupUsers :: "group_user list"
  transcripts :: "transcript list"
  journal :: "row_ref list"

definition GroupUser_findAll :: "string \<Rightarrow> database \<Rightarrow> group_user list" where
  "GroupUser_findAll groupId db = filter (\<lambda>gu. groupUser_groupId gu = groupId) (groupUsers db)"

definition Transcript_findAll :: "string \<Rightarrow> database \<Rightarrow> transcript list" where
  "Transcript_findAll groupId db = filter (\<lambda>t. transcript_groupId t = groupId) (transcripts db)"

text \<open>
  A removal that has been started and not yet awaited: each \<open>async gu => { await
  gu.destroy(options); }\<close> of the hook is one. \<open>run\<close> is the effect of its completion:
  the row with that primary key leaves its table.
\<close>

datatype pending = DestroyGroupUser group_user | DestroyTranscript transcript

fun run :: "pending \<Rightarrow> database \<Rightarrow> database" where
  "run (DestroyGroupUser gu) db =
     db\<lparr>groupUsers := filter (\<lambda>r. groupUser_id r \<noteq> groupUser_id gu) (groupUsers db),
        journal := journal db @ [GroupUserRow (groupUser_id gu)]\<rparr>"
| "run (DestroyTranscript t) db =
     db\<lparr>transcripts := filter (\<lambda>r. transcript_id r \<noteq> transcript_id t) (transcripts db),
        journal := journal db @ [TranscriptRow (transcript_id t)]\<rparr>"

text \<open>The journal entry a completed removal leaves.\<close>

fun removed_row :: "pending \<Rightarrow> row_ref" where
  "removed_row (DestroyGroupUser gu) = GroupUserRow (groupUser_id gu)"
| "removed_row (DestroyTranscript t) = TranscriptRow (transcript_id t)"

text \<open>
  \<open>await Promise.all(ps)\<close> returns when every removal of \<open>ps\<close> has completed. The
  removals were started together and complete in an order the code does not fix: the
  order is the parameter \<open>schedule\<close>, which rearranges the list of started removals.
\<close>

definition Promise_all ::
  "(pending list \<Rightarrow> pending list) \<Rightarrow> pending list \<Rightarrow> database \<Rightarrow> database" where
  "Promise_all schedule ps db = fold run (schedule ps) db"

definition cascadeDestroy ::
  "(pending list \<Rightarrow> pending list) \<Rightarrow> group \<Rightarrow> database \<Rightarrow> database" where
  "cascadeDestroy schedule g db =
     (let promises1 = map DestroyGroupUser (GroupUser_findAll (group_id g) db);
          promises2 = map DestroyTranscript (Transcript_findAll (group_id g) db)
      in Promise_all schedule (promises1 @ promises2) db)"

text \<open>
  \<open>@BeforeDestroy\<close> registers \<open>cascadeDestroy\<close> as a hook that \<open>group.destroy()\<close>
  awaits before it removes the row of the group. (The hook looks the transcripts up after
  it has started the removals of the GroupUser rows; those do not touch the table of
  transcripts, so the lookup finds the same rows.)
\<close>

definition Group_destroy ::
  "(pending list \<Rightarrow> pending list) \<Rightarrow> group \<Rightarrow> database \<Rightarrow> database" where
  "Group_destroy schedule g db =
     (let db' = cascadeDestroy schedule g db
      in db'\<lparr>groups := filter (\<lambda>r. group_id r \<noteq> group_id g) (groups db'),
             journal := journal db' @ [GroupRow (group_id g)]\<rparr>)"

section \<open>The group display name (formatGroupName)\<close>

text \<open>
  The two literals of \<open>formatGroupName\<close>, as UTF-8 bytes: the one-on-one label
  (U+4E00 U+5BF9 U+4E00 U+901A U+8BDD) and the suffix of the count-based label
  (U+4EBA U+901A U+8BDD).
\<close>

definition oneOnOneLabel :: string where
  "oneOnOneLabel =
     [CHR 0xE4, CHR 0xB8, CHR 0x80, CHR 0xE5, CHR 0xAF, CHR 0xB9, CHR 0xE4, CHR 0xB8, CHR 0x80,
      CHR 0xE9, CHR 0x80, CHR 0x9A, CHR 0xE8, CHR 0xAF, CHR 0x9D]"

definition countLabelSuffix :: string where
  "countLabelSuffix =
     [CHR 0xE4, CHR 0xBA, CHR 0xBA, CHR 0xE9, CHR 0x80, CHR 0x9A, CHR 0xE8, CHR 0xAF, CHR 0x9D]"

text \<open>
  \<^verbatim>\<open>return name ?? (userCount <= 2 ? L1 : `${nzh.cn.encodeS(userCount)}L2`);\<close>
  The numeral writer \<open>nzh.cn.encodeS\<close> belongs to the library \<open>nzh\<close>; it is the
  parameter \<open>encodeS\<close>.
\<close>

definition formatGroupName :: "(int \<Rightarrow> string) \<Rightarrow> string option \<Rightarrow> int \<Rightarrow> string" where
  "formatGroupName encodeS name userCount =
     (case name of
        Some n \<Rightarrow> n
      | None \<Rightarrow> (if userCount \<le> 2 then oneOnOneLabel else encodeS userCount @ countLabelSuffix))"

section \<open>Sample environments\<close>

text \<open>
  Concrete credentials, clock, random source and providers, at which the theorems below
  are instantiated.
\<close>

definition sampleEnv :: "(nat \<Rightarrow> axios_config \<Rightarrow> js_error + axios_response) \<Rightarrow> env" where
  "sampleEnv provider =
     \<lparr>TM_SECRET_ID = ''id'', TM_SECRET_KEY = ''key'', TM_ENTERPRISE_ID = ''ent'',
      TM_APP_ID = ''app'', Date_now = (\<lambda>k. 1700000000000 + int k), Math_random = (\<lambda>k. 4711),
      axios = provider, isUrl = (\<lambda>s. True)\<rparr>"

definition world0 :: world where
  "world0 = \<lparr>ticks = 0, draws = 0, requests = [], captured = [], reported = [],
              console = []\<rparr>"

definition emptyObjectProvider :: "nat \<Rightarrow> axios_config \<Rightarrow> js_error + axios_response" where
  "emptyObjectProvider k cfg = Inr \<lparr>status = 200, data = JObj []\<rparr>"

definition errorPayload :: json where
  "errorPayload =
     JObj [(''error_info'',
            JObj [(''error_code'', JNum 190303), (''message'', JStr ''invalid meeting id'')])]"

definition rejectingProvider :: "nat \<Rightarrow> axios_config \<Rightarrow> js_error + axios_response" where
  "rejectingProvider k cfg = Inl (Rejection (Some \<lparr>status = 400, data = errorPayload\<rparr>) None)"

definition unreachableProvider :: "nat \<Rightarrow> axios_config \<Rightarrow> js_error + axios_response" where
  "unreachableProvider k cfg = Inl (Rejection None None)"

definition addressesProvider :: "int \<Rightarrow> nat \<Rightarrow> axios_config \<Rightarrow> js_error + axios_response" where
  "addressesProvider n k cfg =
     Inr \<lparr>status = 200,
          data = JObj [(''total_page'', JNum n),
                       (''record_files'', JArr [JObj [(''record_file_id'', JStr ''f1'')]])]\<rparr>"

definition noMeetingProvider :: "nat \<Rightarrow> axios_config \<Rightarrow> js_error + axios_response" where
  "noMeetingProvider k cfg =
     Inr \<lparr>status = 200,
          data = JObj [(''meeting_number'', JNum 0), (''meeting_info_list'', JArr [])]\<rparr>"

definition noRecordsProvider :: "nat \<Rightarrow> axios_config \<Rightarrow> js_error + axios_response" where
  "noRecordsProvider k cfg =
     Inr \<lparr>status = 200, data = JObj [(''total_count'', JNum 0), (''total_page'', JNum 0)]\<rparr>"

definition sampleRecord :: "string \<Rightarrow> json" where
  "sampleRecord rid =
     JObj [(''meeting_record_id'', JStr rid), (''subject'', JStr ''weekly''), (''state'', JNum 3)]"

definition twoPagesProvider :: "nat \<Rightarrow> axios_config \<Rightarrow> js_error + axios_response" where
  "twoPagesProvider k cfg =
     Inr \<lparr>status = 200,
          data = JObj [(''total_count'', JNum 2), (''total_page'', JNum 2),
                       (''record_meetings'',
                        JArr [sampleRecord (if k = 0 then ''rec-a'' else ''rec-b'')])]\<rparr>"

definition sampleGroup :: group where
  "sampleGroup = \<lparr>group_id = ''g1'', group_name = None, group_meetingLink = None,
                  group_partnershipId = None\<rparr>"

definition sampleDatabase :: database where
  "sampleDatabase =
     \<lparr>groups = [sampleGroup,
                 \<lparr>group_id = ''g2'', group_name = Some ''Custom'', group_meetingLink = None,
                  group_partnershipId = None\<rparr>],
      groupUsers = [\<lparr>groupUser_id = ''gu1'', groupUser_groupId = ''g1''\<rparr>,
                    \<lparr>groupUser_id = ''gu2'', groupUser_groupId = ''g2''\<rparr>,
                    \<lparr>groupUser_id = ''gu3'', groupUser_groupId = ''g1''\<rparr>],
      transcripts = [\<lparr>transcript_id = ''t1'', transcript_groupId = ''g1''\<rparr>,
                     \<lparr>transcript_id = ''t2'', transcript_groupId = ''g2''\<rparr>],
      journal = []\<rparr>"

section \<open>Properties\<close>

subsection \<open>Lengths and injectivity of the encodings\<close>

lemma length_be32_bytes: "length (be32_bytes w) = 4"
  by (simp add: be32_bytes_def)

lemma length_sha256_digest: "length (sha256_digest s) = 32"
  by (cases s rule: sha256_digest.cases) (simp add: length_be32_bytes)

lemma length_sha256: "length (sha256 m) = 32"
  by (simp add: sha256_def length_sha256_digest)

lemma length_hmac_sha256: "length (hmac_sha256 k m) = 32"
  by (simp add: hmac_sha256_def Let_def length_sha256)

lemma length_hex: "length (hex bs) = 2 * length bs"
  by (induction bs) (simp_all add: hex_def)

lemma length_base64: "length (base64 bs) = 4 * ((length bs + 2) div 3)"
proof (induction bs rule: base64.induct)
  case (4 a b c rest)
  have "(length (a # b # c # rest) + 2) div 3 = Suc ((length rest + 2) div 3)"
    by simp
  with 4 show ?case by simp
qed simp_all

lemma length_bytesOf: "length (bytesOf s) = length s"
  by (simp add: bytesOf_def)

lemma length_sign: "length (sign sid key m n t u b) = 88"
  by (simp add: sign_def Let_def length_base64 length_bytesOf length_hex length_hmac_sha256)

lemma canonicalString_tobeSigned:
  "canonicalString sid m n t u b = tobeSigned sid m n t u b"
  by (simp add: canonicalString_def headerString_def tobeSigned_def)

lemma sign_unfold:
  "sign sid key m n t u b =
     base64 (bytesOf (hex (hmac_sha256 (bytesOf key) (bytesOf (canonicalString sid m n t u b)))))"
  by (simp add: sign_def Let_def canonicalString_tobeSigned)

lemma decimal_nonempty: "decimal n \<noteq> []"
  by (subst decimal.simps) simp

lemma last_decimal: "last (decimal n) = char_of (48 + n mod 10)"
  by (subst decimal.simps) simp

lemma butlast_decimal: "butlast (decimal n) = (if n < 10 then [] else decimal (n div 10))"
  by (subst decimal.simps) (simp add: butlast_append)

lemma digit_char_inj: "a < 10 \<Longrightarrow> b < 10 \<Longrightarrow> char_of (48 + a :: nat) = char_of (48 + b) \<Longrightarrow> a = b"
  by simp

lemma decimal_inj: "decimal n = decimal m \<Longrightarrow> n = m"
proof (induction n arbitrary: m rule: decimal.induct)
  case (1 n)
  from "1.prems" have l: "last (decimal n) = last (decimal m)" by simp
  have md: "n mod 10 = m mod 10"
    using l by (intro digit_char_inj) (simp_all add: last_decimal)
  from "1.prems" have b: "butlast (decimal n) = butlast (decimal m)" by simp
  show ?case
  proof (cases "n < 10")
    case True
    with b have "m < 10"
      using decimal_nonempty [of "m div 10"] by (auto simp: butlast_decimal split: if_splits)
    with True md show ?thesis by simp
  next
    case False
    with b have m10: "\<not> m < 10" and eq: "decimal (n div 10) = decimal (m div 10)"
      using decimal_nonempty [of "n div 10"] by (auto simp: butlast_decimal split: if_splits)
    from "1.IH" [OF False eq] have "n div 10 = m div 10" .
    with md show ?thesis
      by (metis div_mult_mod_eq)
  qed
qed

lemma decimal_digits: "c \<in> set (decimal n) \<Longrightarrow> 48 \<le> (of_char c :: nat) \<and> (of_char c :: nat) \<le> 57"
proof (induction n rule: decimal.induct)
  case (1 n)
  show ?case
  proof (cases "n < 10")
    case True
    with "1.prems" have "c = char_of (48 + n)" by (subst (asm) decimal.simps) simp
    with True show ?thesis by simp
  next
    case False
    with "1.prems" have "c \<in> set (decimal (n div 10)) \<or> c = char_of (48 + n mod 10)"
      by (subst (asm) decimal.simps) auto
    then show ?thesis
    proof
      assume "c \<in> set (decimal (n div 10))"
      with "1.IH" [OF False] show ?thesis by simp
    next
      assume "c = char_of (48 + n mod 10)"
      moreover have "n mod 10 < 10" by simp
      ultimately show ?thesis by (simp add: mod_less)
    qed
  qed
qed

lemma hd_decimal_not_minus: "hd (decimal n) \<noteq> CHR ''-''"
proof -
  have "hd (decimal n) \<in> set (decimal n)" using decimal_nonempty by simp
  from decimal_digits [OF this] show ?thesis by auto
qed

lemma numberToString_inj: "numberToString i = numberToString j \<Longrightarrow> i = j"
proof -
  assume eq: "numberToString i = numberToString j"
  have neg: "CHR ''-'' # decimal a \<noteq> decimal b" for a b
    using hd_decimal_not_minus [of b] by (metis list.sel(1))
  show ?thesis
  proof (cases "i < 0"; cases "j < 0")
    assume "i < 0" "j < 0"
    with eq have "decimal (nat (- i)) = decimal (nat (- j))" by (simp add: numberToString_def)
    from decimal_inj [OF this] \<open>i < 0\<close> \<open>j < 0\<close> show ?thesis by simp
  next
    assume "i < 0" "\<not> j < 0"
    with eq neg show ?thesis by (simp add: numberToString_def)
  next
    assume "\<not> i < 0" "j < 0"
    with eq neg [of "nat (- j)" "nat i"] show ?thesis by (simp add: numberToString_def)
  next
    assume "\<not> i < 0" "\<not> j < 0"
    with eq have "decimal (nat i) = decimal (nat j)" by (simp add: numberToString_def)
    from decimal_inj [OF this] \<open>\<not> i < 0\<close> \<open>\<not> j < 0\<close> show ?thesis by simp
  qed
qed

lemma tobeSigned_inj:
  "tobeSigned sid m n t u b = tobeSigned sid m' n t u b \<longleftrightarrow> m = m'"
  "tobeSigned sid m n t u b = tobeSigned sid m n' t u b \<longleftrightarrow> n = n'"
  "tobeSigned sid m n t u b = tobeSigned sid m n t' u b \<longleftrightarrow> t = t'"
  "tobeSigned sid m n t u b = tobeSigned sid m n t u' b \<longleftrightarrow> u = u'"
  "tobeSigned sid m n t u b = tobeSigned sid m n t u b' \<longleftrightarrow> b = b'"
  by (auto simp: tobeSigned_def dest: numberToString_inj)

lemma unat_of_char: "unat (of_char c :: byte) = (of_char c :: nat)"
proof -
  have "(of_char c :: byte) = of_nat (of_char c)"
    by (simp add: of_nat_of_char)
  then have "unat (of_char c :: byte) = (of_char c :: nat) mod 256"
    by (simp add: unat_of_nat)
  then show ?thesis by simp
qed

lemma of_char_byte_inj: "(of_char c :: byte) = of_char d \<Longrightarrow> c = d"
proof -
  assume "(of_char c :: byte) = of_char d"
  then have "unat (of_char c :: byte) = unat (of_char d :: byte)" by simp
  then have "(of_char c :: nat) = of_char d" by (simp only: unat_of_char)
  then show "c = d" by simp
qed

lemma bytesOf_inj: "bytesOf s = bytesOf s' \<Longrightarrow> s = s'"
proof (induction s arbitrary: s')
  case Nil
  then show ?case by (simp add: bytesOf_def)
next
  case (Cons c s)
  then obtain d t where s': "s' = d # t"
    by (cases s') (simp_all add: bytesOf_def)
  with Cons.prems have "(of_char c :: byte) = of_char d" and "bytesOf s = bytesOf t"
    by (simp_all add: bytesOf_def)
  with Cons.IH s' show ?case
    by (simp add: of_char_byte_inj)
qed

lemma hexDigit_inj: "i < 16 \<Longrightarrow> j < 16 \<Longrightarrow> hexDigit i = hexDigit j \<Longrightarrow> i = j"
proof -
  have d: "distinct ''0123456789abcdef''" by simp
  show "i < 16 \<Longrightarrow> j < 16 \<Longrightarrow> hexDigit i = hexDigit j \<Longrightarrow> i = j"
    unfolding hexDigit_def using nth_eq_iff_index_eq [OF d, of i j] by simp
qed

lemma unat_byte_less: "unat (b :: byte) < 256"
proof -
  have "unat b < 2 ^ LENGTH(8)" by (rule unsigned_less)
  then show ?thesis by simp
qed

lemma hex_inj: "hex bs = hex bs' \<Longrightarrow> bs = bs'"
proof (induction bs arbitrary: bs')
  case Nil
  then show ?case by (cases bs') (simp_all add: hex_def)
next
  case (Cons a bs)
  then obtain a' cs where bs': "bs' = a' # cs"
    by (cases bs') (simp_all add: hex_def)
  from Cons.prems bs' have hi: "hexDigit (unat a div 16) = hexDigit (unat a' div 16)"
    and lo: "hexDigit (unat a mod 16) = hexDigit (unat a' mod 16)"
    and tl: "hex bs = hex cs"
    by (simp_all add: hex_def)
  have "unat a div 16 < 16" "unat a' div 16 < 16"
    using unat_byte_less [of a] unat_byte_less [of a'] by simp_all
  then have h: "unat a div 16 = unat a' div 16" using hi by (rule hexDigit_inj)
  have "unat a mod 16 = unat a' mod 16"
    by (rule hexDigit_inj [OF _ _ lo]) simp_all
  with h have "unat a = unat a'"
    by (metis div_mult_mod_eq)
  then have "a = a'" by (simp add: word_unat_eq_iff)
  with Cons.IH [OF tl] bs' show ?case by simp
qed

lemma b64_distinct:
  "distinct ''ABCDEFGHIJKLMNOPQRSTUVWXYZabcdefghijklmnopqrstuvwxyz0123456789+/''"
  by simp

lemma b64_inj: "i < 64 \<Longrightarrow> j < 64 \<Longrightarrow> b64 i = b64 j \<Longrightarrow> i = j"
  unfolding b64_def using nth_eq_iff_index_eq [OF b64_distinct, of i j] by simp

lemma b64_not_pad: "i < 64 \<Longrightarrow> b64 i \<noteq> CHR ''=''"
proof -
  assume "i < 64"
  then have "b64 i \<in> set ''ABCDEFGHIJKLMNOPQRSTUVWXYZabcdefghijklmnopqrstuvwxyz0123456789+/''"
    unfolding b64_def by (intro nth_mem) simp
  then show ?thesis by auto
qed

lemma b64_idx_bounds:
  fixes a b c :: nat
  assumes "a < 256" "b < 256" "c < 256"
  shows "a div 4 < 64" "a mod 4 * 16 + b div 16 < 64" "b mod 16 * 4 + c div 64 < 64"
    "c mod 64 < 64" "a mod 4 * 16 < 64" "b mod 16 * 4 < 64"
proof -
  have "a mod 4 < 4" "b mod 16 < 16" "b div 16 < 16" "c div 64 < 4" "a div 4 < 64"
    using assms by simp_all
  then show "a div 4 < 64" "a mod 4 * 16 + b div 16 < 64" "b mod 16 * 4 + c div 64 < 64"
    "c mod 64 < 64" "a mod 4 * 16 < 64" "b mod 16 * 4 < 64"
    by simp_all
qed

lemma b64_eq_iff: "i < 64 \<Longrightarrow> j < 64 \<Longrightarrow> b64 i = b64 j \<longleftrightarrow> i = j"
  using b64_inj by blast

lemma radix_split:
  fixes x y x' y' k :: nat
  assumes "x * k + y = x' * k + y'" "y < k" "y' < k"
  shows "x = x' \<and> y = y'"
proof -
  from assms(1) have "(x * k + y) div k = (x' * k + y') div k"
    and "(x * k + y) mod k = (x' * k + y') mod k" by simp_all
  with assms(2,3) show ?thesis by simp
qed

lemma divmod_eqI:
  fixes a a' k :: nat
  assumes "a div k = a' div k" "a mod k = a' mod k"
  shows "a = a'"
  using assms by (metis div_mult_mod_eq)

lemma b64_recombine:
  fixes a b c a' b' c' :: nat
  assumes "a div 4 = a' div 4"
    and "a mod 4 * 16 + b div 16 = a' mod 4 * 16 + b' div 16"
    and "b mod 16 * 4 + c div 64 = b' mod 16 * 4 + c' div 64"
    and "c mod 64 = c' mod 64"
    and "b < 256" "b' < 256" "c < 256" "c' < 256"
  shows "a = a' \<and> b = b' \<and> c = c'"
proof -
  have "b div 16 < 16" "b' div 16 < 16" "c div 64 < 4" "c' div 64 < 4"
    using assms(5-8) by simp_all
  from radix_split [OF assms(2) this(1,2)] radix_split [OF assms(3) this(3,4)]
  have "a mod 4 = a' mod 4" "b div 16 = b' div 16" "b mod 16 = b' mod 16" "c div 64 = c' div 64"
    by simp_all
  with assms(1,4) show ?thesis
    by (auto intro: divmod_eqI)
qed

lemma base64_inj: "base64 xs = base64 ys \<Longrightarrow> xs = ys"
proof (induction xs arbitrary: ys rule: base64.induct)
  case 1
  then show ?case by (cases ys rule: base64.cases) simp_all
next
  case (2 a)
  then have eq: "base64 [a] = base64 ys" by simp
  note ba = b64_idx_bounds [OF unat_byte_less [of a] unat_byte_less [of 0] unat_byte_less [of 0]]
  show ?case
  proof (cases ys rule: base64.cases)
    case 1
    with eq show ?thesis by simp
  next
    case (2 a')
    note bb = b64_idx_bounds [OF unat_byte_less [of a'] unat_byte_less [of 0] unat_byte_less [of 0]]
    from eq 2 have "unat a div 4 = unat a' div 4" "unat a mod 4 * 16 = unat a' mod 4 * 16"
      using ba bb by (simp_all add: b64_eq_iff)
    then have "unat a = unat a'" by (auto intro: divmod_eqI [where k = 4])
    with 2 show ?thesis by (simp add: word_unat_eq_iff)
  next
    case (3 a' b')
    note bb = b64_idx_bounds [OF unat_byte_less [of a'] unat_byte_less [of b'] unat_byte_less [of 0]]
    from eq 3 have "b64 (unat b' mod 16 * 4) = CHR ''=''" by simp
    with b64_not_pad [OF bb(6)] show ?thesis by simp
  next
    case (4 a' b' c' rest')
    note bb = b64_idx_bounds [OF unat_byte_less [of a'] unat_byte_less [of b'] unat_byte_less [of c']]
    from eq 4 have "b64 (unat b' mod 16 * 4 + unat c' div 64) = CHR ''=''" by simp
    with b64_not_pad [OF bb(3)] show ?thesis by simp
  qed
next
  case (3 a b)
  then have eq: "base64 [a, b] = base64 ys" by simp
  note ba = b64_idx_bounds [OF unat_byte_less [of a] unat_byte_less [of b] unat_byte_less [of 0]]
  show ?case
  proof (cases ys rule: base64.cases)
    case 1
    with eq show ?thesis by simp
  next
    case (2 a')
    from eq 2 have "b64 (unat b mod 16 * 4) = CHR ''=''" by simp
    with b64_not_pad [OF ba(6)] show ?thesis by simp
  next
    case (3 a' b')
    note bb = b64_idx_bounds [OF unat_byte_less [of a'] unat_byte_less [of b'] unat_byte_less [of 0]]
    from eq 3 have "unat a div 4 = unat a' div 4"
      "unat a mod 4 * 16 + unat b div 16 = unat a' mod 4 * 16 + unat b' div 16"
      "unat b mod 16 * 4 = unat b' mod 16 * 4"
      using ba bb by (simp_all add: b64_eq_iff)
    then have "unat a = unat a' \<and> unat b = unat b' \<and> (0::nat) = 0"
      by (intro b64_recombine) (simp_all add: unat_byte_less)
    with 3 show ?thesis by (simp add: word_unat_eq_iff)
  next
    case (4 a' b' c' rest')
    note bb = b64_idx_bounds [OF unat_byte_less [of a'] unat_byte_less [of b'] unat_byte_less [of c']]
    from eq 4 have "b64 (unat c' mod 64) = CHR ''=''" by simp
    with b64_not_pad [OF bb(4)] show ?thesis by simp
  qed
next
  case (4 a b c rest)
  then have eq: "base64 (a # b # c # rest) = base64 ys" by simp
  note ba = b64_idx_bounds [OF unat_byte_less [of a] unat_byte_less [of b] unat_byte_less [of c]]
  show ?case
  proof (cases ys rule: base64.cases)
    case 1
    with eq show ?thesis by simp
  next
    case (2 a')
    from eq 2 have "b64 (unat b mod 16 * 4 + unat c div 64) = CHR ''=''" by simp
    with b64_not_pad [OF ba(3)] show ?thesis by simp
  next
    case (3 a' b')
    from eq 3 have "b64 (unat c mod 64) = CHR ''=''" by simp
    with b64_not_pad [OF ba(4)] show ?thesis by simp
  next
    case (4 a' b' c' rest')
    note bb = b64_idx_bounds [OF unat_byte_less [of a'] unat_byte_less [of b'] unat_byte_less [of c']]
    from eq 4 have q: "unat a div 4 = unat a' div 4"
      "unat a mod 4 * 16 + unat b div 16 = unat a' mod 4 * 16 + unat b' div 16"
      "unat b mod 16 * 4 + unat c div 64 = unat b' mod 16 * 4 + unat c' div 64"
      "unat c mod 64 = unat c' mod 64"
      and r: "base64 rest = base64 rest'"
      using ba bb by (simp_all add: b64_eq_iff)
    from b64_recombine [OF q unat_byte_less unat_byte_less unat_byte_less unat_byte_less]
    have "a = a' \<and> b = b' \<and> c = c'" by (simp add: word_unat_eq_iff)
    moreover from "4.IH" [OF r] have "rest = rest'" .
    ultimately show ?thesis using 4 by simp
  qed
qed

lemma sign_eq_iff:
  "sign sid key m n t u b = sign sid key m' n' t' u' b' \<longleftrightarrow>
     hmac_sha256 (bytesOf key) (bytesOf (tobeSigned sid m n t u b))
       = hmac_sha256 (bytesOf key) (bytesOf (tobeSigned sid m' n' t' u' b'))"
  by (auto simp: sign_def Let_def dest!: base64_inj bytesOf_inj hex_inj)

subsection \<open>One request\<close>

lemma numberToString_not_braces: "numberToString n \<noteq> ''{}''"
proof
  assume eq: "numberToString n = ''{}''"
  have "CHR ''}'' \<in> set (numberToString n)" by (simp add: eq)
  then have "CHR ''}'' \<in> set (decimal (nat (- n))) \<or> CHR ''}'' \<in> set (decimal (nat n))"
    by (auto simp: numberToString_def split: if_splits)
  then show False
    using decimal_digits [of "CHR ''}''"] by auto
qed

lemma joinWith_Cons: "\<exists>r. joinWith sep (x # xs) = x @ r"
  by (cases xs) simp_all

lemma JSON_stringify_empty_object: "JSON_stringify j = ''{}'' \<longleftrightarrow> j = JObj []"
proof (cases j)
  case (JNum n)
  then show ?thesis using numberToString_not_braces by simp
next
  case (JStr s)
  then show ?thesis by (simp add: quoteJSONString_def)
next
  case (JArr xs)
  then show ?thesis by simp
next
  case (JObj kvs)
  show ?thesis
  proof (cases kvs)
    case Nil
    with JObj show ?thesis by simp
  next
    case (Cons kv rest)
    obtain k v where kv: "kv = (k, v)" by (cases kv)
    obtain r where "joinWith '','' (map (\<lambda>(k, v). quoteJSONString k @ '':'' @ JSON_stringify v) kvs)
        = (quoteJSONString k @ '':'' @ JSON_stringify v) @ r"
      using joinWith_Cons [of "'',''" "quoteJSONString k @ '':'' @ JSON_stringify v"] Cons kv
      by auto
    with JObj Cons show ?thesis by (simp add: quoteJSONString_def)
  qed
qed simp_all

lemma tmRequest_resolved:
  assumes "axios env (length (requests w))
             (tmRequest_config env method uri query body (Date_now env (ticks w))
                (Math_random env (draws w))) = Inr resp"
    and "data resp \<noteq> JObj []"
  shows "tmRequest env method uri query body w =
           (Inr (data resp),
            w\<lparr>ticks := ticks w + 1, draws := draws w + 1,
              requests := requests w @ [tmRequest_config env method uri query body
                 (Date_now env (ticks w)) (Math_random env (draws w))]\<rparr>)"
  using assms by (simp add: tmRequest_def Let_def JSON_stringify_empty_object)

lemma tmRequest_empty_object:
  assumes "axios env (length (requests w))
             (tmRequest_config env method uri query body (Date_now env (ticks w))
                (Math_random env (draws w))) = Inr resp"
    and "data resp = JObj []"
  shows "tmRequest env method uri query body w =
           (Inl undefinedResponse,
            w\<lparr>ticks := ticks w + 1, draws := draws w + 1,
              requests := requests w @ [tmRequest_config env method uri query body
                 (Date_now env (ticks w)) (Math_random env (draws w))],
              captured := captured w @ [undefinedResponse, undefinedResponse],
              reported := reported w @ [undefinedResponse]\<rparr>)"
  using assms
  by (simp add: tmRequest_def Let_def tmRequest_catch_def Sentry_captureException_def
      new_error_def undefinedResponse_def)

lemma tmRequest_rejected:
  assumes "axios env (length (requests w))
             (tmRequest_config env method uri query body (Date_now env (ticks w))
                (Math_random env (draws w))) = Inl e"
  shows "tmRequest env method uri query body w =
           (let thrown = (case error_response e of
                            Some response \<Rightarrow> failedRequest (status response) (error_data e)
                          | None \<Rightarrow> e)
            in (Inl thrown,
                w\<lparr>ticks := ticks w + 1, draws := draws w + 1,
                  requests := requests w @ [tmRequest_config env method uri query body
                     (Date_now env (ticks w)) (Math_random env (draws w))],
                  captured := captured w @ [thrown],
                  reported := reported w @ [thrown]\<rparr>))"
  using assms
  by (simp add: tmRequest_def Let_def tmRequest_catch_def Sentry_captureException_def
      new_error_def split: option.splits)

lemma tmRequest_requests:
  "requests (snd (tmRequest env method uri query body w)) =
     requests w @ [tmRequest_config env method uri query body (Date_now env (ticks w))
                     (Math_random env (draws w))]"
  by (simp add: tmRequest_def Let_def tmRequest_catch_def Sentry_captureException_def
      new_error_def split: sum.splits option.splits)

lemma zod_parse_requests: "requests (snd (zod_parse env schema r)) = requests (snd r)"
  by (simp add: zod_parse_def split: prod.splits sum.splits option.splits)

lemma createMeeting_requests:
  "requests (snd (createMeeting env u s a b w)) =
     requests w @ [tmRequest_config env POST ''/v1/meetings'' [] (createMeeting_body u s a b)
                     (Date_now env (ticks w)) (Math_random env (draws w))]"
  by (simp add: createMeeting_def Let_def zod_parse_requests tmRequest_requests console_log_def)

lemma zod_parse_Inl: "zod_parse env schema (Inl e, w) = (Inl e, w)"
  by (simp add: zod_parse_def)

lemma numberToString_400: "numberToString 400 = ''400''"
  by code_simp

subsection \<open>Parsed answers\<close>

lemma zparse_ZNumber: "zparse valid ZNumber v = Some r \<Longrightarrow> \<exists>n. r = JNum n"
  by (cases v) auto

lemma zparse_ZObject_JObj:
  "zparse valid (ZObject shape) d = Some res \<Longrightarrow> \<exists>kvs. d = JObj kvs"
  by (cases d) auto

lemma getRecordURLs_zRes_total_page:
  assumes "zparse valid getRecordURLs_zRes d = Some res"
  shows "\<exists>n. getProp res ''total_page'' = Some (JNum n)"
proof -
  from assms obtain kvs where d: "d = JObj kvs"
    unfolding getRecordURLs_zRes_def by (blast dest: zparse_ZObject_JObj)
  from assms d obtain v r where "map_of kvs ''total_page'' = Some v"
    and r: "zparse valid ZNumber v = Some r"
    and g: "getProp res ''total_page'' = Some r"
    by (auto simp: getRecordURLs_zRes_def getProp_def List.map_filter_def
        split: option.splits)
  from zparse_ZNumber [OF r] g show ?thesis by auto
qed

lemma parsed_answer:
  assumes "\<forall>cfg. axios env (length (requests w)) cfg = Inr resp"
    and "data resp \<noteq> JObj []"
    and "zparse (isUrl env) schema (data resp) = Some res"
  shows "fst (zod_parse env schema (tmRequest env m u q b (console_log x y w))) = Inr res"
proof -
  have "length (requests (console_log x y w)) = length (requests w)"
    by (simp add: console_log_def)
  with assms(1) have "axios env (length (requests (console_log x y w)))
             (tmRequest_config env m u q b (Date_now env (ticks (console_log x y w)))
                (Math_random env (draws (console_log x y w)))) = Inr resp"
    by simp
  from tmRequest_resolved [OF this assms(2)] assms(3) show ?thesis
    by (simp add: zod_parse_def)
qed

subsection \<open>The paging loop\<close>

lemma listRecords_zRes_not_empty: "zparse valid listRecords_zRes (JObj []) = None"
  by (simp add: listRecords_zRes_def)

lemma listRecords_page_run:
  assumes "reportsTotalPage env N"
  shows "\<exists>res. listRecords_page env u p w =
           (Inr res,
            w\<lparr>ticks := ticks w + 3, draws := draws w + 1,
              requests := requests w @ [listRecords_request env u (ticks w) (draws w) p]\<rparr>)
         \<and> getProp res ''total_page'' = Some (JNum N)
         \<and> record_meetings_or_empty res
             = listRecords_answer env (length (requests w))
                 (listRecords_request env u (ticks w) (draws w) p)"
proof -
  let ?cfg = "listRecords_request env u (ticks w) (draws w) p"
  let ?w = "w\<lparr>ticks := ticks w + 2\<rparr>"
  from assms obtain resp res where a: "axios env (length (requests w)) ?cfg = Inr resp"
    and z: "zparse (isUrl env) listRecords_zRes (data resp) = Some res"
    and t: "getProp res ''total_page'' = Some (JNum N)"
    unfolding reportsTotalPage_def by blast
  from z have ne: "data resp \<noteq> JObj []"
    by (auto simp: listRecords_zRes_not_empty)
  have "axios env (length (requests ?w))
          (tmRequest_config env GET ''/v1/records'' (listRecords_query env u (ticks w) p)
             (JObj []) (Date_now env (ticks ?w)) (Math_random env (draws ?w))) = Inr resp"
    using a by (simp add: listRecords_request_def)
  from tmRequest_resolved [OF this ne] z
  have "listRecords_page env u p w =
           (Inr res,
            w\<lparr>ticks := ticks w + 3, draws := draws w + 1,
              requests := requests w @ [?cfg]\<rparr>)"
    by (simp add: listRecords_page_def zod_parse_def listRecords_request_def)
  moreover have "record_meetings_or_empty res = listRecords_answer env (length (requests w)) ?cfg"
    by (simp add: listRecords_answer_def a z)
  ultimately show ?thesis using t by blast
qed

lemma listRecords_loop_run:
  assumes "reportsTotalPage env N"
  shows "listRecords_loop env u ret p w =
           Some (Inr (ret @ concat (map (\<lambda>j. listRecords_answer env (length (requests w) + j)
                                  (listRecords_request env u (ticks w + 3 * j) (draws w + j)
                                     (p + int j)))
                          [0..<Suc (nat (N - p))])),
                 w\<lparr>ticks := ticks w + 3 * Suc (nat (N - p)),
                    draws := draws w + Suc (nat (N - p)),
                    requests := requests w @
                      map (\<lambda>j. listRecords_request env u (ticks w + 3 * j) (draws w + j)
                                 (p + int j))
                        [0..<Suc (nat (N - p))]\<rparr>)"
proof (induction "nat (N - p)" arbitrary: p ret w)
  case 0
  from listRecords_page_run [OF assms, of u p w] obtain res where
    pg: "listRecords_page env u p w =
           (Inr res,
            w\<lparr>ticks := ticks w + 3, draws := draws w + 1,
              requests := requests w @ [listRecords_request env u (ticks w) (draws w) p]\<rparr>)"
    and tp: "getProp res ''total_page'' = Some (JNum N)"
    and rm: "record_meetings_or_empty res
             = listRecords_answer env (length (requests w))
                 (listRecords_request env u (ticks w) (draws w) p)"
    by blast
  from 0 have "N \<le> p" by simp
  with tp have ge: "page_ge_total_page p res" by (simp add: page_ge_total_page_def)
  from 0 have m: "nat (N - p) = 0" by simp
  show ?case
    by (subst listRecords_loop.simps) (simp add: pg ge rm m)
next
  case (Suc k)
  from listRecords_page_run [OF assms, of u p w] obtain res where
    pg: "listRecords_page env u p w =
           (Inr res,
            w\<lparr>ticks := ticks w + 3, draws := draws w + 1,
              requests := requests w @ [listRecords_request env u (ticks w) (draws w) p]\<rparr>)"
    and tp: "getProp res ''total_page'' = Some (JNum N)"
    and rm: "record_meetings_or_empty res
             = listRecords_answer env (length (requests w))
                 (listRecords_request env u (ticks w) (draws w) p)"
    by blast
  let ?w1 = "w\<lparr>ticks := ticks w + 3, draws := draws w + 1,
              requests := requests w @ [listRecords_request env u (ticks w) (draws w) p]\<rparr>"
  from Suc.hyps(2) have lt: "p < N" and k: "k = nat (N - (p + 1))"
    and m: "nat (N - p) = Suc k" by simp_all
  from lt tp have nge: "\<not> page_ge_total_page p res" by (simp add: page_ge_total_page_def)
  have step: "listRecords_loop env u ret p w =
      listRecords_loop env u (ret @ record_meetings_or_empty res) (p + 1) ?w1"
    by (subst listRecords_loop.simps) (simp add: pg nge)
  have shift: "p + 1 + int j = p + int (Suc j)" for j by simp
  show ?case
    unfolding step Suc.hyps(1) [OF k] m k [symmetric]
    by (simp add: rm map_upt_Suc [of _ "Suc k"] shift del: upt_Suc map_append
        add: add.assoc)
qed

lemma qsEncode_unreserved: "\<forall>c \<in> set s. qsUnreserved c \<Longrightarrow> qsEncode s = s"
  by (induction s) (simp_all add: qsEncode_def)

lemma qsUnreserved_digit:
  "48 \<le> (of_char c :: nat) \<and> (of_char c :: nat) \<le> 57 \<Longrightarrow> qsUnreserved c"
  by (simp add: qsUnreserved_def)

lemma qsUnreserved_minus: "qsUnreserved (CHR ''-'')"
  by (simp add: qsUnreserved_def)

lemma qsEncode_numberToString: "qsEncode (numberToString n) = numberToString n"
proof (rule qsEncode_unreserved, rule ballI)
  fix c assume "c \<in> set (numberToString n)"
  then have "c = CHR ''-'' \<or> c \<in> set (decimal (nat (- n))) \<or> c \<in> set (decimal (nat n))"
    by (auto simp: numberToString_def split: if_splits)
  then show "qsUnreserved c"
    using decimal_digits [of c] qsUnreserved_digit [of c] qsUnreserved_minus by blast
qed

lemma qsEncode_keys:
  "qsEncode ''userid'' = ''userid''" "qsEncode ''start_time'' = ''start_time''"
  "qsEncode ''end_time'' = ''end_time''" "qsEncode ''page_size'' = ''page_size''"
  "qsEncode ''page'' = ''page''" "qsEncode ''20'' = ''20''"
  by code_simp+

lemma numberToString_20: "numberToString 20 = ''20''"
  by code_simp

lemma listRecords_request_shape:
  "cfg_method (listRecords_request env u tick draw page) = GET
   \<and> cfg_data (listRecords_request env u tick draw page) = None
   \<and> cfg_url (listRecords_request env u tick draw page) =
       ''https://api.meeting.qq.com/v1/records?userid='' @ qsEncode u
         @ ''&start_time=''
         @ numberToString (Math_trunc_div (Date_now env tick - 31 * 24 * 3600 * 1000) 1000)
         @ ''&end_time='' @ numberToString (Math_trunc_div (Date_now env (tick + 1)) 1000)
         @ ''&page_size=20&page='' @ numberToString page"
  by (simp add: listRecords_request_def tmRequest_config_def Let_def listRecords_query_def
      qs_stringify_def qsEncode_keys qsEncode_numberToString numberToString_20)

lemma lookback_31_days:
  assumes "31 * 24 * 3600 * 1000 \<le> T"
  shows "Math_trunc_div T 1000 - Math_trunc_div (T - 31 * 24 * 3600 * 1000) 1000
           = 31 * 24 * 3600"
proof -
  have "T - 31 * 24 * 3600 * 1000 = T + 1000 * (- 2678400)" by simp
  then have "(T - 31 * 24 * 3600 * 1000) div 1000 = T div 1000 + (- 2678400)"
    by (simp only: div_mult_self2 [of 1000 T "- 2678400"])
  moreover have "Math_trunc_div a 1000 = a div 1000" if "0 \<le> a" for a
    using that by (cases "a = 0") (simp_all add: Math_trunc_div_def)
  ultimately show ?thesis using assms by simp
qed

lemma nat_max_1: "Suc (nat (N - 1)) = nat (max 1 N)"
  by simp

lemma listRecords_run:
  assumes "reportsTotalPage env N"
  shows "listRecords env tmUserId w =
      Some (Inr (concat (map (\<lambda>j. listRecords_answer env (length (requests w) + j)
                                 (listRecords_request env tmUserId (ticks w + 3 * j)
                                    (draws w + j) (int j + 1)))
                         [0..<nat (max 1 N)])),
            (console_log LOG_HEADER ''listRecords()'' w)
              \<lparr>ticks := ticks w + 3 * nat (max 1 N),
               draws := draws w + nat (max 1 N),
               requests := requests w @
                 map (\<lambda>j. listRecords_request env tmUserId (ticks w + 3 * j) (draws w + j)
                            (int j + 1))
                   [0..<nat (max 1 N)]\<rparr>)"
proof -
  let ?w = "console_log LOG_HEADER ''listRecords()'' w"
  have w: "ticks ?w = ticks w" "draws ?w = draws w" "requests ?w = requests w"
    by (simp_all add: console_log_def)
  have "listRecords env tmUserId w = listRecords_loop env tmUserId [] 1 ?w"
    by (simp add: listRecords_def)
  also note listRecords_loop_run [OF assms, of tmUserId "[]" 1 ?w]
  finally show ?thesis
    unfolding w nat_max_1 by (simp add: add.commute)
qed

lemma zparse_sampleRecord:
  "zparse valid listRecords_zRes
     (JObj [(''total_count'', JNum c), (''total_page'', JNum n),
            (''record_meetings'', JArr [sampleRecord rid])])
   = Some (JObj [(''total_count'', JNum c), (''total_page'', JNum n),
                 (''record_meetings'', JArr [sampleRecord rid])])"
  by (simp add: listRecords_zRes_def zRecordMeetings_def sampleRecord_def List.map_filter_def)

lemma reportsTotalPage_twoPages: "reportsTotalPage (sampleEnv twoPagesProvider) 2"
  by (simp add: reportsTotalPage_def sampleEnv_def twoPagesProvider_def zparse_sampleRecord
      getProp_def)

lemma reportsTotalPage_noRecords: "reportsTotalPage (sampleEnv noRecordsProvider) 0"
  by (simp add: reportsTotalPage_def sampleEnv_def noRecordsProvider_def listRecords_zRes_def
      List.map_filter_def getProp_def)

subsection \<open>The cascade\<close>

lemma fold_run_groups: "groups (fold run ps db) = groups db"
proof (induction ps arbitrary: db)
  case (Cons p ps)
  then show ?case by (cases p) simp_all
qed simp

lemma fold_run_journal: "journal (fold run ps db) = journal db @ map removed_row ps"
proof (induction ps arbitrary: db)
  case (Cons p ps)
  then show ?case by (cases p) simp_all
qed simp

lemma fold_run_groupUsers:
  "groupUsers (fold run ps db) =
     filter (\<lambda>r. \<forall>gu. DestroyGroupUser gu \<in> set ps \<longrightarrow> groupUser_id r \<noteq> groupUser_id gu)
       (groupUsers db)"
proof (induction ps arbitrary: db)
  case Nil
  then show ?case by simp
next
  case (Cons p ps)
  show ?case
  proof (cases p)
    case (DestroyGroupUser gu)
    then show ?thesis by (auto simp: Cons.IH intro: filter_cong)
  next
    case (DestroyTranscript t)
    then show ?thesis by (simp add: Cons.IH)
  qed
qed

lemma fold_run_transcripts:
  "transcripts (fold run ps db) =
     filter (\<lambda>r. \<forall>t. DestroyTranscript t \<in> set ps \<longrightarrow> transcript_id r \<noteq> transcript_id t)
       (transcripts db)"
proof (induction ps arbitrary: db)
  case Nil
  then show ?case by simp
next
  case (Cons p ps)
  show ?case
  proof (cases p)
    case (DestroyGroupUser gu)
    then show ?thesis by (simp add: Cons.IH)
  next
    case (DestroyTranscript t)
    then show ?thesis by (auto simp: Cons.IH intro: filter_cong)
  qed
qed

lemma cascadeDestroy_groupUsers:
  assumes "\<forall>ps. mset (schedule ps) = mset ps"
  shows "groupUsers (cascadeDestroy schedule g db) =
           filter (\<lambda>r. groupUser_id r \<notin> groupUser_id ` set (GroupUser_findAll (group_id g) db))
             (groupUsers db)"
proof -
  let ?ps = "map DestroyGroupUser (GroupUser_findAll (group_id g) db)
             @ map DestroyTranscript (Transcript_findAll (group_id g) db)"
  from assms have "set (schedule ?ps) = set ?ps"
    by (metis mset_eq_setD)
  then show ?thesis
    by (auto simp: cascadeDestroy_def Let_def Promise_all_def fold_run_groupUsers
        intro!: filter_cong)
qed

lemma cascadeDestroy_transcripts:
  assumes "\<forall>ps. mset (schedule ps) = mset ps"
  shows "transcripts (cascadeDestroy schedule g db) =
           filter (\<lambda>r. transcript_id r \<notin> transcript_id ` set (Transcript_findAll (group_id g) db))
             (transcripts db)"
proof -
  let ?ps = "map DestroyGroupUser (GroupUser_findAll (group_id g) db)
             @ map DestroyTranscript (Transcript_findAll (group_id g) db)"
  from assms have "set (schedule ?ps) = set ?ps"
    by (metis mset_eq_setD)
  then show ?thesis
    by (auto simp: cascadeDestroy_def Let_def Promise_all_def fold_run_transcripts
        intro!: filter_cong)
qed

lemma cascadeDestroy_journal:
  assumes "\<forall>ps. mset (schedule ps) = mset ps"
  shows "\<exists>deps. journal (cascadeDestroy schedule g db) = journal db @ deps
           \<and> mset deps =
               mset (map (GroupUserRow \<circ> groupUser_id) (GroupUser_findAll (group_id g) db)
                     @ map (TranscriptRow \<circ> transcript_id) (Transcript_findAll (group_id g) db))"
proof -
  let ?ps = "map DestroyGroupUser (GroupUser_findAll (group_id g) db)
             @ map DestroyTranscript (Transcript_findAll (group_id g) db)"
  have "mset (map removed_row (schedule ?ps)) = image_mset removed_row (mset (schedule ?ps))"
    by simp
  also have "\<dots> = image_mset removed_row (mset ?ps)"
    using assms by simp
  also have "\<dots> = mset (map (GroupUserRow \<circ> groupUser_id) (GroupUser_findAll (group_id g) db)
                     @ map (TranscriptRow \<circ> transcript_id) (Transcript_findAll (group_id g) db))"
    by (simp add: comp_def image_mset.compositionality)
  finally show ?thesis
    by (auto simp: cascadeDestroy_def Let_def Promise_all_def fold_run_journal)
qed

lemma cascadeDestroy_groups: "groups (cascadeDestroy schedule g db) = groups db"
  by (simp add: cascadeDestroy_def Let_def Promise_all_def fold_run_groups)

subsection \<open>Test vectors\<close>

text \<open>
  The SHA-256 of \<open>abc\<close> (FIPS 180-4) and a published HMAC-SHA256 value, computed by
  the definitions above.
\<close>

lemma sha256_abc:
  "hex (sha256 (bytesOf ''abc''))
     = ''ba7816bf8f01cfea414140de5dae2223b00361a396177a9cb410ff61f20015ad''"
  by code_simp

lemma hmac_sha256_vector:
  "hex (hmac_sha256 (bytesOf ''key'') (bytesOf ''The quick brown fox jumps over the lazy dog''))
     = ''f7bc83f430538424b13298e6aa6fb143ef4d59a14946175997479dbc2d1a3cd8''"
  by code_simp

subsection \<open>sign\<close>

text \<open>
  C4, as amended. For every input, the signature is the base64 encoding of the lowercase
  hexadecimal text of the HMAC-SHA256 (keyed by the secret key) of the canonical string:
  the method, a newline, the header string, a newline, the path with its query, a newline,
  the body. It is 88 characters long. (The base64 encoding of the 32 bytes of the MAC
  itself would be 44 characters long, which is what the second theorem uses.)
\<close>

theorem sign_base64_of_hex_hmac:
  "sign secretId secretKey httpMethod nonce timestamp pathWithQuery body =
     base64 (bytesOf (hex (hmac_sha256 (bytesOf secretKey)
       (bytesOf (canonicalString secretId httpMethod nonce timestamp pathWithQuery body)))))
   \<and> length (sign secretId secretKey httpMethod nonce timestamp pathWithQuery body) = 88"
  using sign_unfold length_sign by simp

text \<open>
  C4 as stated fails: at this input the signature is not the base64 encoding of the MAC.
\<close>

theorem sign_not_base64_of_hmac:
  "sign ''id'' ''key'' ''GET'' 1 2 ''/v1/meetings'' []
   \<noteq> base64 (hmac_sha256 (bytesOf ''key'')
        (bytesOf (canonicalString ''id'' ''GET'' 1 2 ''/v1/meetings'' [])))"
proof
  assume eq: "sign ''id'' ''key'' ''GET'' 1 2 ''/v1/meetings'' []
   = base64 (hmac_sha256 (bytesOf ''key'')
        (bytesOf (canonicalString ''id'' ''GET'' 1 2 ''/v1/meetings'' [])))"
  have "length (sign ''id'' ''key'' ''GET'' 1 2 ''/v1/meetings'' []) = 88"
    by (rule length_sign)
  moreover have "length (base64 (hmac_sha256 (bytesOf ''key'')
        (bytesOf (canonicalString ''id'' ''GET'' 1 2 ''/v1/meetings'' [])))) = 44"
    by (simp add: length_base64 length_hmac_sha256)
  ultimately show False using eq by simp
qed

text \<open>
  What is proved of the sensitivity of \<open>sign\<close> to its inputs. Equal inputs give
  equal signatures. Changing exactly one of the method, the nonce, the timestamp, the path
  or the body changes the string that is signed, and two signatures under the same
  credentials differ exactly when the HMAC-SHA256 values of the two signed strings differ.
  Whether those values differ is the collision resistance of HMAC-SHA256, which is no
  theorem: the last lemma shows by counting that some two bodies have the same signature,
  and it names no such pair.
\<close>

lemma sign_sensitivity:
  "(m = m' \<and> n = n' \<and> t = t' \<and> u = u' \<and> b = b'
      \<longrightarrow> sign sid key m n t u b = sign sid key m' n' t' u' b')
   \<and> (m \<noteq> m' \<longrightarrow> tobeSigned sid m n t u b \<noteq> tobeSigned sid m' n t u b)
   \<and> (n \<noteq> n' \<longrightarrow> tobeSigned sid m n t u b \<noteq> tobeSigned sid m n' t u b)
   \<and> (t \<noteq> t' \<longrightarrow> tobeSigned sid m n t u b \<noteq> tobeSigned sid m n t' u b)
   \<and> (u \<noteq> u' \<longrightarrow> tobeSigned sid m n t u b \<noteq> tobeSigned sid m n t u' b)
   \<and> (b \<noteq> b' \<longrightarrow> tobeSigned sid m n t u b \<noteq> tobeSigned sid m n t u b')
   \<and> (sign sid key m n t u b \<noteq> sign sid key m' n' t' u' b' \<longleftrightarrow>
        hmac_sha256 (bytesOf key) (bytesOf (tobeSigned sid m n t u b))
          \<noteq> hmac_sha256 (bytesOf key) (bytesOf (tobeSigned sid m' n' t' u' b')))"
  by (simp add: tobeSigned_inj sign_eq_iff)

lemma sign_sensitivity_instance:
  "''GET'' \<noteq> ''POST'' \<and> (1::int) \<noteq> 7 \<and> (2::int) \<noteq> 3 \<and> ''/v1/records'' \<noteq> ''/v1/meetings''
   \<and> ''{}'' \<noteq> ''''
   \<and> sign ''id'' ''key'' ''GET'' 1 2 ''/v1/records'' ''{}''
       = sign ''id'' ''key'' ''GET'' 1 2 ''/v1/records'' ''{}''
   \<and> tobeSigned ''id'' ''GET'' 1 2 ''/v1/records'' ''{}''
       \<noteq> tobeSigned ''id'' ''POST'' 1 2 ''/v1/records'' ''{}''
   \<and> tobeSigned ''id'' ''GET'' 1 2 ''/v1/records'' ''{}''
       \<noteq> tobeSigned ''id'' ''GET'' 7 2 ''/v1/records'' ''{}''
   \<and> tobeSigned ''id'' ''GET'' 1 2 ''/v1/records'' ''{}''
       \<noteq> tobeSigned ''id'' ''GET'' 1 3 ''/v1/records'' ''{}''
   \<and> tobeSigned ''id'' ''GET'' 1 2 ''/v1/records'' ''{}''
       \<noteq> tobeSigned ''id'' ''GET'' 1 2 ''/v1/meetings'' ''{}''
   \<and> tobeSigned ''id'' ''GET'' 1 2 ''/v1/records'' ''{}''
       \<noteq> tobeSigned ''id'' ''GET'' 1 2 ''/v1/records'' ''''"
  using sign_sensitivity [of "''GET''" "''POST''" 1 7 2 3 "''/v1/records''"
      "''/v1/meetings''" "''{}''" "''''" "''id''" "''key''"]
  by simp

lemma sign_collides_on_bodies:
  "\<not> (\<forall>b b'. b \<noteq> b' \<longrightarrow>
     sign ''id'' ''key'' ''GET'' 1 2 ''/v1/meetings'' b
       \<noteq> sign ''id'' ''key'' ''GET'' 1 2 ''/v1/meetings'' b')"
proof
  assume a: "\<forall>b b'. b \<noteq> b' \<longrightarrow>
     sign ''id'' ''key'' ''GET'' 1 2 ''/v1/meetings'' b
       \<noteq> sign ''id'' ''key'' ''GET'' 1 2 ''/v1/meetings'' b'"
  let ?f = "sign ''id'' ''key'' ''GET'' 1 2 ''/v1/meetings''"
  have inj: "inj ?f"
    using a by (auto simp: inj_on_def)
  have "range ?f \<subseteq> {s. set s \<subseteq> UNIV \<and> length s = 88}"
    by (auto simp: length_sign)
  moreover have "finite {s :: string. set s \<subseteq> UNIV \<and> length s = 88}"
    by (rule finite_lists_length_eq) simp
  ultimately have "finite (range ?f)"
    by (rule finite_subset)
  from finite_imageD [OF this inj] have "finite (UNIV :: string set)" .
  then show False
    using infinite_UNIV_listI by blast
qed

subsection \<open>createMeeting\<close>

text \<open>
  C1. \<open>createMeeting\<close> issues one request, a POST to \<open>/v1/meetings\<close>. The options
  it gives to axios are the method, the URL and the headers and nothing else: \<open>data\<close>
  is not set, so the request carries no body. The JSON object with \<open>userid\<close>,
  \<open>instanceid\<close>, \<open>subject\<close>, \<open>start_time\<close>, \<open>end_time\<close> and \<open>type\<close> is
  serialized for the signature only; the subject and the time window are not submitted.
\<close>

theorem createMeeting_sends_no_body:
  "requests (snd (createMeeting env tmUserId subject startTimeSecond endTimeSecond w)) =
     requests w @ [tmRequest_config env POST ''/v1/meetings'' []
                     (createMeeting_body tmUserId subject startTimeSecond endTimeSecond)
                     (Date_now env (ticks w)) (Math_random env (draws w))]
   \<and> cfg_method (tmRequest_config env POST ''/v1/meetings'' []
                     (createMeeting_body tmUserId subject startTimeSecond endTimeSecond)
                     (Date_now env (ticks w)) (Math_random env (draws w))) = POST
   \<and> cfg_url (tmRequest_config env POST ''/v1/meetings'' []
                     (createMeeting_body tmUserId subject startTimeSecond endTimeSecond)
                     (Date_now env (ticks w)) (Math_random env (draws w)))
        = ''https://api.meeting.qq.com/v1/meetings''
   \<and> cfg_data (tmRequest_config env POST ''/v1/meetings'' []
                     (createMeeting_body tmUserId subject startTimeSecond endTimeSecond)
                     (Date_now env (ticks w)) (Math_random env (draws w))) = None"
  by (simp add: createMeeting_requests) (simp add: tmRequest_config_def Let_def)

subsection \<open>The empty-object answer\<close>

text \<open>
  C2. When the provider answers status 200 with the empty object, \<open>tmRequest\<close> and
  each of the four endpoints raise the \<open>NOT_FOUND\<close> error \<open>undefinedResponse\<close>
  instead of succeeding, and that error is reported to the monitoring service exactly
  once. (\<open>Sentry.captureException\<close> is called twice, by the try block and again by the
  catch block that catches what the try block throws, both times with the same error
  object; the second call sends nothing.)
\<close>

theorem empty_object_reported_once:
  assumes "\<forall>k cfg. axios env k cfg = Inr \<lparr>status = 200, data = JObj []\<rparr>"
  shows "fst (tmRequest env method uri query body w) = Inl undefinedResponse
       \<and> reported (snd (tmRequest env method uri query body w))
           = reported w @ [undefinedResponse]
       \<and> captured (snd (tmRequest env method uri query body w))
           = captured w @ [undefinedResponse, undefinedResponse]
       \<and> fst (createMeeting env tmUserId subject startTimeSecond endTimeSecond w)
           = Inl undefinedResponse
       \<and> reported (snd (createMeeting env tmUserId subject startTimeSecond endTimeSecond w))
           = reported w @ [undefinedResponse]
       \<and> fst (getMeeting env meetingId tmUserId w) = Inl undefinedResponse
       \<and> reported (snd (getMeeting env meetingId tmUserId w))
           = reported w @ [undefinedResponse]
       \<and> map_option fst (listRecords env tmUserId w) = Some (Inl undefinedResponse)
       \<and> map_option (reported \<circ> snd) (listRecords env tmUserId w)
           = Some (reported w @ [undefinedResponse])
       \<and> fst (getRecordURLs env meetingRecordId tmUserId w) = Inl undefinedResponse
       \<and> reported (snd (getRecordURLs env meetingRecordId tmUserId w))
           = reported w @ [undefinedResponse]"
proof -
  have req: "tmRequest env m u q b v =
           (Inl undefinedResponse,
            v\<lparr>ticks := ticks v + 1, draws := draws v + 1,
              requests := requests v @ [tmRequest_config env m u q b
                 (Date_now env (ticks v)) (Math_random env (draws v))],
              captured := captured v @ [undefinedResponse, undefinedResponse],
              reported := reported v @ [undefinedResponse]\<rparr>)" for m u q b v
    by (rule tmRequest_empty_object [where resp = "\<lparr>status = 200, data = JObj []\<rparr>"])
      (simp_all add: assms)
  have 1: "fst (tmRequest env method uri query body w) = Inl undefinedResponse
       \<and> reported (snd (tmRequest env method uri query body w))
           = reported w @ [undefinedResponse]
       \<and> captured (snd (tmRequest env method uri query body w))
           = captured w @ [undefinedResponse, undefinedResponse]"
    by (simp add: req)
  have 2: "fst (createMeeting env tmUserId subject startTimeSecond endTimeSecond w)
           = Inl undefinedResponse
       \<and> reported (snd (createMeeting env tmUserId subject startTimeSecond endTimeSecond w))
           = reported w @ [undefinedResponse]"
    by (simp add: createMeeting_def Let_def req zod_parse_Inl console_log_def)
  have 3: "fst (getMeeting env meetingId tmUserId w) = Inl undefinedResponse
       \<and> reported (snd (getMeeting env meetingId tmUserId w))
           = reported w @ [undefinedResponse]"
    by (simp add: getMeeting_def Let_def req zod_parse_Inl console_log_def)
  have pg: "listRecords_page env tmUserId 1 v =
      (Inl undefinedResponse, snd (listRecords_page env tmUserId 1 v))" for v
    by (simp add: listRecords_page_def req zod_parse_Inl)
  have 4: "listRecords env tmUserId w =
      Some (Inl undefinedResponse,
            snd (listRecords_page env tmUserId 1 (console_log LOG_HEADER ''listRecords()'' w)))"
    unfolding listRecords_def
    by (subst listRecords_loop.simps, subst pg) simp
  have 5: "map_option fst (listRecords env tmUserId w) = Some (Inl undefinedResponse)
       \<and> map_option (reported \<circ> snd) (listRecords env tmUserId w)
           = Some (reported w @ [undefinedResponse])"
    unfolding 4 by (simp add: listRecords_page_def req zod_parse_Inl console_log_def)
  have 6: "fst (getRecordURLs env meetingRecordId tmUserId w) = Inl undefinedResponse
       \<and> reported (snd (getRecordURLs env meetingRecordId tmUserId w))
           = reported w @ [undefinedResponse]"
    by (simp add: getRecordURLs_def Let_def req zod_parse_Inl console_log_def)
  from 1 2 3 5 6 show ?thesis by blast
qed

theorem empty_object_reported_once_witness:
  "(\<forall>k cfg. axios (sampleEnv emptyObjectProvider) k cfg = Inr \<lparr>status = 200, data = JObj []\<rparr>)
   \<and> fst (getMeeting (sampleEnv emptyObjectProvider) ''8920608318088532478'' ''u1'' world0)
       = Inl (TRPCError NOT_FOUND ''Response data is undefined''
                (Some (JStr ''check validties of Tencent Meeting API inputs'')))
   \<and> reported (snd (getMeeting (sampleEnv emptyObjectProvider) ''8920608318088532478''
                       ''u1'' world0))
       = [TRPCError NOT_FOUND ''Response data is undefined''
            (Some (JStr ''check validties of Tencent Meeting API inputs''))]"
proof -
  have h: "\<forall>k cfg. axios (sampleEnv emptyObjectProvider) k cfg
             = Inr \<lparr>status = 200, data = JObj []\<rparr>"
    by (simp add: sampleEnv_def emptyObjectProvider_def)
  from empty_object_reported_once [OF h, where w = world0
      and meetingId = "''8920608318088532478''" and tmUserId = "''u1''"]
  have "fst (getMeeting (sampleEnv emptyObjectProvider) ''8920608318088532478'' ''u1'' world0)
          = Inl undefinedResponse"
    and "reported (snd (getMeeting (sampleEnv emptyObjectProvider) ''8920608318088532478''
                               ''u1'' world0))
          = reported world0 @ [undefinedResponse]"
    by blast+
  with h show ?thesis
    by (simp add: undefinedResponse_def world0_def)
qed

subsection \<open>A request that fails\<close>

text \<open>
  C3. When axios rejects with an error that carries a response, \<open>tmRequest\<close> raises a
  \<open>BAD_REQUEST\<close> error whose message ends with the status of that response and whose
  cause is \<open>error.data\<close>, the \<open>data\<close> property of the error itself, which is not
  the payload \<open>error.response.data\<close>. When the error carries no response it is thrown
  again unchanged. Either way Sentry receives the error thrown, once. At the witness the
  provider answers status 400 with a payload, as axios reports it (the payload within
  \<open>response\<close>, no \<open>data\<close> on the error): the cause of the error raised is
  \<open>undefined\<close>, and the payload is lost.
\<close>

theorem tmRequest_rejection:
  "(axios env (length (requests w))
      (tmRequest_config env method uri query body (Date_now env (ticks w))
         (Math_random env (draws w))) = Inl e
    \<and> error_response e = Some response
    \<longrightarrow> fst (tmRequest env method uri query body w)
          = Inl (TRPCError BAD_REQUEST
                   (''Tencent Meeting Rest API request failed, status Code:''
                      @ numberToString (status response))
                   (error_data e))
        \<and> captured (snd (tmRequest env method uri query body w))
          = captured w @ [TRPCError BAD_REQUEST
                   (''Tencent Meeting Rest API request failed, status Code:''
                      @ numberToString (status response))
                   (error_data e)])
   \<and> (axios env (length (requests w))
        (tmRequest_config env method uri query body (Date_now env (ticks w))
           (Math_random env (draws w))) = Inl e
      \<and> error_response e = None
      \<longrightarrow> fst (tmRequest env method uri query body w) = Inl e
          \<and> captured (snd (tmRequest env method uri query body w)) = captured w @ [e])"
  by (auto simp: tmRequest_rejected failedRequest_def Let_def)

theorem tmRequest_rejection_witness:
  "axios (sampleEnv rejectingProvider) (length (requests world0))
      (tmRequest_config (sampleEnv rejectingProvider) GET ''/v1/meetings/1'' [] (JObj [])
         (Date_now (sampleEnv rejectingProvider) (ticks world0))
         (Math_random (sampleEnv rejectingProvider) (draws world0)))
     = Inl (Rejection (Some \<lparr>status = 400, data = errorPayload\<rparr>) None)
   \<and> error_response (Rejection (Some \<lparr>status = 400, data = errorPayload\<rparr>) None)
     = Some \<lparr>status = 400, data = errorPayload\<rparr>
   \<and> fst (tmRequest (sampleEnv rejectingProvider) GET ''/v1/meetings/1'' [] (JObj []) world0)
     = Inl (TRPCError BAD_REQUEST ''Tencent Meeting Rest API request failed, status Code:400''
              None)"
proof -
  let ?e = "Rejection (Some \<lparr>status = 400, data = errorPayload\<rparr>) None"
  have a: "axios (sampleEnv rejectingProvider) (length (requests world0))
      (tmRequest_config (sampleEnv rejectingProvider) GET ''/v1/meetings/1'' [] (JObj [])
         (Date_now (sampleEnv rejectingProvider) (ticks world0))
         (Math_random (sampleEnv rejectingProvider) (draws world0))) = Inl ?e"
    by (simp add: sampleEnv_def rejectingProvider_def)
  have r: "error_response ?e = Some \<lparr>status = 400, data = errorPayload\<rparr>"
    by simp
  from tmRequest_rejection [of "sampleEnv rejectingProvider" world0 GET "''/v1/meetings/1''" "[]"
      "JObj []" ?e "\<lparr>status = 400, data = errorPayload\<rparr>"] a r
  have "fst (tmRequest (sampleEnv rejectingProvider) GET ''/v1/meetings/1'' [] (JObj []) world0)
     = Inl (TRPCError BAD_REQUEST
              (''Tencent Meeting Rest API request failed, status Code:'' @ numberToString 400)
              (error_data ?e))"
    by simp
  with a r show ?thesis by (simp add: numberToString_400)
qed

subsection \<open>listRecords\<close>

text \<open>
  C6, as amended. Against a provider that reports \<open>total_page = N\<close> on every response,
  \<open>listRecords\<close> returns, after exactly \<open>max 1 N\<close> sequential page requests: \<open>N\<close>
  requests when \<open>N\<close> is at least 1, and one request (page 1) when \<open>N\<close> is 0 or
  less, since the page count is only known from the first answer. The requests are GET
  requests for the pages 1, 2, ... in order, each with \<open>page_size=20\<close>, a \<open>start_time\<close>
  31 days before the clock value it read and an \<open>end_time\<close> at the clock value read
  next; the result is the concatenation of the \<open>record_meetings\<close> of the answers in
  page order (nothing for an answer without \<open>record_meetings\<close>).
\<close>

theorem listRecords_pages:
  assumes "reportsTotalPage env N"
  shows "\<exists>w'. listRecords env tmUserId w =
           Some (Inr (concat (map (\<lambda>j. listRecords_answer env (length (requests w) + j)
                                 (listRecords_request env tmUserId (ticks w + 3 * j)
                                    (draws w + j) (int j + 1)))
                         [0..<nat (max 1 N)])), w')
         \<and> requests w' = requests w @
               map (\<lambda>j. listRecords_request env tmUserId (ticks w + 3 * j) (draws w + j)
                          (int j + 1))
                 [0..<nat (max 1 N)]
         \<and> (\<forall>j < nat (max 1 N).
               cfg_method (listRecords_request env tmUserId (ticks w + 3 * j) (draws w + j)
                             (int j + 1)) = GET
               \<and> cfg_url (listRecords_request env tmUserId (ticks w + 3 * j) (draws w + j)
                             (int j + 1)) =
                   ''https://api.meeting.qq.com/v1/records?userid='' @ qsEncode tmUserId
                     @ ''&start_time=''
                     @ numberToString (Math_trunc_div
                         (Date_now env (ticks w + 3 * j) - 31 * 24 * 3600 * 1000) 1000)
                     @ ''&end_time=''
                     @ numberToString (Math_trunc_div (Date_now env (ticks w + 3 * j + 1)) 1000)
                     @ ''&page_size=20&page='' @ numberToString (int j + 1))"
  unfolding listRecords_run [OF assms] using listRecords_request_shape by fastforce

theorem listRecords_pages_witness:
  "reportsTotalPage (sampleEnv twoPagesProvider) 2
   \<and> map_option fst (listRecords (sampleEnv twoPagesProvider) ''u1'' world0)
       = Some (Inr [sampleRecord ''rec-a'', sampleRecord ''rec-b''])
   \<and> map_option (length \<circ> requests \<circ> snd)
         (listRecords (sampleEnv twoPagesProvider) ''u1'' world0) = Some 2"
proof -
  have two: "[0..<nat (max 1 2)] = [0, 1]"
    by (simp add: upt_rec)
  have ans: "listRecords_answer (sampleEnv twoPagesProvider) k cfg
               = [sampleRecord (if k = 0 then ''rec-a'' else ''rec-b'')]" for k cfg
  proof -
    have "axios (sampleEnv twoPagesProvider) k cfg = twoPagesProvider k cfg"
      by (simp add: sampleEnv_def)
    then show ?thesis
      by (simp add: listRecords_answer_def twoPagesProvider_def zparse_sampleRecord
          record_meetings_or_empty_def getProp_def)
  qed
  from listRecords_pages [OF reportsTotalPage_twoPages, of "''u1''" world0]
  obtain w' where r: "listRecords (sampleEnv twoPagesProvider) ''u1'' world0 =
      Some (Inr (concat (map (\<lambda>j. listRecords_answer (sampleEnv twoPagesProvider)
                                 (length (requests world0) + j)
                                 (listRecords_request (sampleEnv twoPagesProvider) ''u1''
                                    (ticks world0 + 3 * j) (draws world0 + j) (int j + 1)))
                         [0..<nat (max 1 2)])), w')"
    and q: "requests w' = requests world0 @
               map (\<lambda>j. listRecords_request (sampleEnv twoPagesProvider) ''u1''
                          (ticks world0 + 3 * j) (draws world0 + j) (int j + 1))
                 [0..<nat (max 1 2)]"
    by blast
  have "map_option fst (listRecords (sampleEnv twoPagesProvider) ''u1'' world0)
       = Some (Inr [sampleRecord ''rec-a'', sampleRecord ''rec-b''])"
    unfolding r two by (simp add: ans world0_def)
  moreover have "map_option (length \<circ> requests \<circ> snd)
         (listRecords (sampleEnv twoPagesProvider) ''u1'' world0) = Some 2"
    unfolding r by (simp add: q two world0_def)
  ultimately show ?thesis using reportsTotalPage_twoPages by blast
qed

text \<open>
  C6 as stated fails for \<open>N = 0\<close>: a provider that reports \<open>total_page = 0\<close> (no
  records) is still asked once.
\<close>

theorem listRecords_one_request_for_zero_pages:
  "reportsTotalPage (sampleEnv noRecordsProvider) 0
   \<and> map_option (length \<circ> requests \<circ> snd)
         (listRecords (sampleEnv noRecordsProvider) ''u1'' world0) = Some 1"
proof -
  have one: "[0..<nat (max 1 0)] = [0]"
    by simp
  have "map_option (length \<circ> requests \<circ> snd)
         (listRecords (sampleEnv noRecordsProvider) ''u1'' world0) = Some 1"
    unfolding listRecords_run [OF reportsTotalPage_noRecords] one
    by (simp add: world0_def console_log_def)
  with reportsTotalPage_noRecords show ?thesis by blast
qed

subsection \<open>getRecordURLs\<close>

text \<open>
  C7, as amended. When the provider's answer passes the schema, its \<open>total_page\<close> is a
  number \<open>n\<close>, and \<open>getRecordURLs\<close> raises the \<open>METHOD_NOT_SUPPORTED\<close> error
  exactly when \<open>n\<close> is not 1 (so for 2 pages, and also for 0 pages); when \<open>n\<close> is 1
  it returns the validated response.
\<close>

theorem getRecordURLs_one_page_only:
  assumes "\<forall>cfg. axios env (length (requests w)) cfg = Inr resp"
    and "data resp \<noteq> JObj []"
    and "zparse (isUrl env) getRecordURLs_zRes (data resp) = Some res"
  shows "\<exists>n. getProp res ''total_page'' = Some (JNum n)
           \<and> fst (getRecordURLs env meetingRecordId tmUserId w)
               = (if n = 1 then Inr res else Inl paginationNotSupported)"
proof -
  from getRecordURLs_zRes_total_page [OF assms(3)]
  obtain n where n: "getProp res ''total_page'' = Some (JNum n)" by blast
  let ?r = "zod_parse env getRecordURLs_zRes
              (tmRequest env GET ''/v1/addresses''
                 [(''meeting_record_id'', QStr meetingRecordId), (''userid'', QStr tmUserId)]
                 (JObj [])
                 (console_log LOG_HEADER
                    (''getRecordURLs('' @ [CHR 0x22] @ meetingRecordId @ [CHR 0x22] @ '')'') w))"
  have "fst ?r = Inr res"
    by (rule parsed_answer [OF assms])
  then obtain w' where "?r = (Inr res, w')"
    by (cases ?r) simp
  then have "fst (getRecordURLs env meetingRecordId tmUserId w)
               = (if n = 1 then Inr res else Inl paginationNotSupported)"
    by (simp add: getRecordURLs_def Let_def n)
  with n show ?thesis by blast
qed

theorem getRecordURLs_one_page_only_witness:
  "(\<forall>cfg. axios (sampleEnv (addressesProvider 1)) (length (requests world0)) cfg
       = addressesProvider 1 0 cfg)
   \<and> fst (getRecordURLs (sampleEnv (addressesProvider 1)) ''r1'' ''u1'' world0)
       = Inr (JObj [(''total_page'', JNum 1),
                    (''record_files'', JArr [JObj [(''record_file_id'', JStr ''f1'')]])])
   \<and> fst (getRecordURLs (sampleEnv (addressesProvider 2)) ''r1'' ''u1'' world0)
       = Inl (TRPCError METHOD_NOT_SUPPORTED ''Pagination isn't supported'' None)"
proof -
  let ?d = "\<lambda>n. JObj [(''total_page'', JNum n),
                       (''record_files'', JArr [JObj [(''record_file_id'', JStr ''f1'')]])]"
  have a: "\<forall>cfg. axios (sampleEnv (addressesProvider n)) (length (requests world0)) cfg
             = Inr \<lparr>status = 200, data = ?d n\<rparr>" for n
    by (simp add: sampleEnv_def addressesProvider_def)
  have b: "data \<lparr>status = 200, data = ?d n\<rparr> \<noteq> JObj []" for n by simp
  have c: "zparse (isUrl (sampleEnv (addressesProvider n))) getRecordURLs_zRes
             (data \<lparr>status = 200, data = ?d n\<rparr>) = Some (?d n)" for n
    by (simp add: getRecordURLs_zRes_def List.map_filter_def)
  from getRecordURLs_one_page_only [OF a b c, of 1 "''r1''" "''u1''"]
  have 1: "fst (getRecordURLs (sampleEnv (addressesProvider 1)) ''r1'' ''u1'' world0)
             = Inr (?d 1)"
    by (simp add: getProp_def)
  from getRecordURLs_one_page_only [OF a b c, of 2 "''r1''" "''u1''"]
  have 2: "fst (getRecordURLs (sampleEnv (addressesProvider 2)) ''r1'' ''u1'' world0)
             = Inl paginationNotSupported"
    by (simp add: getProp_def)
  from 1 2 show ?thesis
    by (simp add: sampleEnv_def addressesProvider_def paginationNotSupported_def)
qed

text \<open>
  C7 as stated fails: an answer with \<open>total_page = 0\<close> does not span more than one
  page, and is rejected all the same.
\<close>

theorem getRecordURLs_rejects_zero_pages:
  "fst (getRecordURLs (sampleEnv (addressesProvider 0)) ''r1'' ''u1'' world0)
     = Inl (TRPCError METHOD_NOT_SUPPORTED ''Pagination isn't supported'' None)"
proof -
  let ?d = "JObj [(''total_page'', JNum 0),
                  (''record_files'', JArr [JObj [(''record_file_id'', JStr ''f1'')]])]"
  have a: "\<forall>cfg. axios (sampleEnv (addressesProvider 0)) (length (requests world0)) cfg
             = Inr \<lparr>status = 200, data = ?d\<rparr>"
    by (simp add: sampleEnv_def addressesProvider_def)
  have b: "data \<lparr>status = 200, data = ?d\<rparr> \<noteq> JObj []" by simp
  have c: "zparse (isUrl (sampleEnv (addressesProvider 0))) getRecordURLs_zRes
             (data \<lparr>status = 200, data = ?d\<rparr>) = Some ?d"
    by (simp add: getRecordURLs_zRes_def List.map_filter_def)
  have "fst (zod_parse (sampleEnv (addressesProvider 0)) getRecordURLs_zRes
              (tmRequest (sampleEnv (addressesProvider 0)) GET ''/v1/addresses''
                 [(''meeting_record_id'', QStr ''r1''), (''userid'', QStr ''u1'')]
                 (JObj [])
                 (console_log LOG_HEADER
                    (''getRecordURLs('' @ [CHR 0x22] @ ''r1'' @ [CHR 0x22] @ '')'') world0)))
         = Inr ?d" (is "fst ?r = _")
    by (rule parsed_answer [OF a b c])
  then obtain w' where "?r = (Inr ?d, w')"
    by (cases ?r) simp
  then show ?thesis
    by (simp add: getRecordURLs_def Let_def getProp_def paginationNotSupported_def)
qed

subsection \<open>getMeeting\<close>

text \<open>
  C10. When the provider's answer passes the schema and its \<open>meeting_info_list\<close> is
  empty, \<open>getMeeting\<close> returns \<open>undefined\<close> and raises nothing: the caller of a
  successful, schema-valid call can receive \<open>undefined\<close>.
\<close>

theorem getMeeting_undefined_on_empty_list:
  assumes "\<forall>cfg. axios env (length (requests w)) cfg = Inr resp"
    and "data resp \<noteq> JObj []"
    and "zparse (isUrl env) getMeeting_zRes (data resp) = Some res"
    and "getProp res ''meeting_info_list'' = Some (JArr [])"
  shows "fst (getMeeting env meetingId tmUserId w) = Inr None"
proof -
  let ?r = "zod_parse env getMeeting_zRes
                (tmRequest env GET (''/v1/meetings/'' @ meetingId)
                   [(''userid'', QStr tmUserId), (''instanceid'', QStr ''1'')] (JObj [])
                   (console_log LOG_HEADER ''listMeetings()'' w))"
  have "fst ?r = Inr res"
    by (rule parsed_answer [OF assms(1-3)])
  then obtain w' where "?r = (Inr res, w')"
    by (cases ?r) simp
  then show ?thesis
    by (simp add: getMeeting_def Let_def assms(4))
qed

theorem getMeeting_undefined_on_empty_list_witness:
  "(\<forall>cfg. axios (sampleEnv noMeetingProvider) (length (requests world0)) cfg
       = Inr \<lparr>status = 200,
              data = JObj [(''meeting_number'', JNum 0), (''meeting_info_list'', JArr [])]\<rparr>)
   \<and> zparse (isUrl (sampleEnv noMeetingProvider)) getMeeting_zRes
         (JObj [(''meeting_number'', JNum 0), (''meeting_info_list'', JArr [])])
       = Some (JObj [(''meeting_number'', JNum 0), (''meeting_info_list'', JArr [])])
   \<and> fst (getMeeting (sampleEnv noMeetingProvider) ''8920608318088532478'' ''u1'' world0)
       = Inr None"
proof -
  let ?d = "JObj [(''meeting_number'', JNum 0), (''meeting_info_list'', JArr [])]"
  have a: "\<forall>cfg. axios (sampleEnv noMeetingProvider) (length (requests world0)) cfg
             = Inr \<lparr>status = 200, data = ?d\<rparr>"
    by (simp add: sampleEnv_def noMeetingProvider_def)
  have b: "data \<lparr>status = 200, data = ?d\<rparr> \<noteq> JObj []" by simp
  have c: "zparse (isUrl (sampleEnv noMeetingProvider)) getMeeting_zRes
             (data \<lparr>status = 200, data = ?d\<rparr>) = Some ?d"
    by (simp add: getMeeting_zRes_def List.map_filter_def)
  have d: "getProp ?d ''meeting_info_list'' = Some (JArr [])"
    by (simp add: getProp_def)
  from getMeeting_undefined_on_empty_list [OF a b c d, of "''8920608318088532478''" "''u1''"] a c
  show ?thesis by simp
qed

subsection \<open>Destroying a group\<close>

text \<open>
  C8. Let a group have \<open>N\<close> GroupUser rows and \<open>M\<close> Transcript rows. Whatever the
  order in which the removals started by the hook complete, when the hook returns none of
  these rows is left and the row of the group is still there; \<open>group.destroy()\<close> then
  removes it. The journal of the removals grows by the \<open>N + M\<close> dependent rows, each
  once, followed by the row of the group. Where primary keys are distinct, the rows of
  other groups stay as they were.
\<close>

theorem Group_destroy_cascade:
  assumes "\<forall>ps. mset (schedule ps) = mset ps"
  shows "GroupUser_findAll (group_id g) (cascadeDestroy schedule g db) = []
       \<and> Transcript_findAll (group_id g) (cascadeDestroy schedule g db) = []
       \<and> groups (cascadeDestroy schedule g db) = groups db
       \<and> GroupUser_findAll (group_id g) (Group_destroy schedule g db) = []
       \<and> Transcript_findAll (group_id g) (Group_destroy schedule g db) = []
       \<and> filter (\<lambda>r. group_id r = group_id g) (groups (Group_destroy schedule g db)) = []
       \<and> (\<exists>deps. journal (Group_destroy schedule g db)
                    = journal db @ deps @ [GroupRow (group_id g)]
              \<and> mset deps =
                  mset (map (GroupUserRow \<circ> groupUser_id) (GroupUser_findAll (group_id g) db)
                        @ map (TranscriptRow \<circ> transcript_id)
                            (Transcript_findAll (group_id g) db))
              \<and> length deps = length (GroupUser_findAll (group_id g) db)
                              + length (Transcript_findAll (group_id g) db))
       \<and> (distinct (map groupUser_id (groupUsers db)) \<longrightarrow>
            groupUsers (Group_destroy schedule g db)
              = filter (\<lambda>r. groupUser_groupId r \<noteq> group_id g) (groupUsers db))
       \<and> (distinct (map transcript_id (transcripts db)) \<longrightarrow>
            transcripts (Group_destroy schedule g db)
              = filter (\<lambda>r. transcript_groupId r \<noteq> group_id g) (transcripts db))"
proof -
  note gu = cascadeDestroy_groupUsers [OF assms, of g db]
  note tr = cascadeDestroy_transcripts [OF assms, of g db]
  have 1: "GroupUser_findAll (group_id g) (cascadeDestroy schedule g db) = []"
    unfolding GroupUser_findAll_def [of _ "cascadeDestroy schedule g db"] gu
    by (auto simp: filter_empty_conv GroupUser_findAll_def)
  have 2: "Transcript_findAll (group_id g) (cascadeDestroy schedule g db) = []"
    unfolding Transcript_findAll_def [of _ "cascadeDestroy schedule g db"] tr
    by (auto simp: filter_empty_conv Transcript_findAll_def)
  have 3: "groups (cascadeDestroy schedule g db) = groups db"
    by (rule cascadeDestroy_groups)
  have 4: "GroupUser_findAll (group_id g) (Group_destroy schedule g db) = []"
    using 1 by (simp add: Group_destroy_def Let_def GroupUser_findAll_def)
  have 5: "Transcript_findAll (group_id g) (Group_destroy schedule g db) = []"
    using 2 by (simp add: Group_destroy_def Let_def Transcript_findAll_def)
  have 6: "filter (\<lambda>r. group_id r = group_id g) (groups (Group_destroy schedule g db)) = []"
    by (simp add: Group_destroy_def Let_def filter_empty_conv)
  from cascadeDestroy_journal [OF assms, of g db] obtain deps where
    j: "journal (cascadeDestroy schedule g db) = journal db @ deps"
    and m: "mset deps =
              mset (map (GroupUserRow \<circ> groupUser_id) (GroupUser_findAll (group_id g) db)
                    @ map (TranscriptRow \<circ> transcript_id) (Transcript_findAll (group_id g) db))"
    by blast
  from m have "size (mset deps) =
      size (mset (map (GroupUserRow \<circ> groupUser_id) (GroupUser_findAll (group_id g) db)
                    @ map (TranscriptRow \<circ> transcript_id) (Transcript_findAll (group_id g) db)))"
    by simp
  then have l: "length deps = length (GroupUser_findAll (group_id g) db)
                              + length (Transcript_findAll (group_id g) db)"
    by simp
  have 7: "\<exists>deps. journal (Group_destroy schedule g db)
                    = journal db @ deps @ [GroupRow (group_id g)]
              \<and> mset deps =
                  mset (map (GroupUserRow \<circ> groupUser_id) (GroupUser_findAll (group_id g) db)
                        @ map (TranscriptRow \<circ> transcript_id)
                            (Transcript_findAll (group_id g) db))
              \<and> length deps = length (GroupUser_findAll (group_id g) db)
                              + length (Transcript_findAll (group_id g) db)"
    using j m l by (auto simp: Group_destroy_def Let_def)
  have 8: "groupUsers (Group_destroy schedule g db)
              = filter (\<lambda>r. groupUser_groupId r \<noteq> group_id g) (groupUsers db)"
    if d: "distinct (map groupUser_id (groupUsers db))"
  proof -
    have "groupUser_id r \<notin> groupUser_id ` set (GroupUser_findAll (group_id g) db)
            \<longleftrightarrow> groupUser_groupId r \<noteq> group_id g" if "r \<in> set (groupUsers db)" for r
      using that d by (auto simp: GroupUser_findAll_def distinct_map inj_on_def)
    then show ?thesis
      by (simp add: Group_destroy_def Let_def gu cong: filter_cong)
  qed
  have 9: "transcripts (Group_destroy schedule g db)
              = filter (\<lambda>r. transcript_groupId r \<noteq> group_id g) (transcripts db)"
    if d: "distinct (map transcript_id (transcripts db))"
  proof -
    have "transcript_id r \<notin> transcript_id ` set (Transcript_findAll (group_id g) db)
            \<longleftrightarrow> transcript_groupId r \<noteq> group_id g" if "r \<in> set (transcripts db)" for r
      using that d by (auto simp: Transcript_findAll_def distinct_map inj_on_def)
    then show ?thesis
      by (simp add: Group_destroy_def Let_def tr cong: filter_cong)
  qed
  from 1 2 3 4 5 6 7 8 9 show ?thesis by blast
qed

theorem Group_destroy_cascade_witness:
  "(\<forall>ps :: pending list. mset (rev ps) = mset ps)
   \<and> distinct (map groupUser_id (groupUsers sampleDatabase))
   \<and> distinct (map transcript_id (transcripts sampleDatabase))
   \<and> journal (Group_destroy rev sampleGroup sampleDatabase)
       = [TranscriptRow ''t1'', GroupUserRow ''gu3'', GroupUserRow ''gu1'', GroupRow ''g1'']
   \<and> groupUsers (Group_destroy rev sampleGroup sampleDatabase)
       = [\<lparr>groupUser_id = ''gu2'', groupUser_groupId = ''g2''\<rparr>]
   \<and> transcripts (Group_destroy rev sampleGroup sampleDatabase)
       = [\<lparr>transcript_id = ''t2'', transcript_groupId = ''g2''\<rparr>]
   \<and> GroupUser_findAll ''g1'' (Group_destroy rev sampleGroup sampleDatabase) = []"
proof -
  have p: "\<forall>ps :: pending list. mset (rev ps) = mset ps" by simp
  have d1: "distinct (map groupUser_id (groupUsers sampleDatabase))"
    by (simp add: sampleDatabase_def)
  have d2: "distinct (map transcript_id (transcripts sampleDatabase))"
    by (simp add: sampleDatabase_def)
  have j: "journal (Group_destroy rev sampleGroup sampleDatabase)
       = [TranscriptRow ''t1'', GroupUserRow ''gu3'', GroupUserRow ''gu1'', GroupRow ''g1'']"
    by (simp add: Group_destroy_def cascadeDestroy_def Promise_all_def Let_def
        GroupUser_findAll_def Transcript_findAll_def sampleDatabase_def sampleGroup_def)
  from Group_destroy_cascade [OF p, of sampleGroup sampleDatabase] d1 d2
  have "groupUsers (Group_destroy rev sampleGroup sampleDatabase)
          = filter (\<lambda>r. groupUser_groupId r \<noteq> group_id sampleGroup) (groupUsers sampleDatabase)"
    and "transcripts (Group_destroy rev sampleGroup sampleDatabase)
          = filter (\<lambda>r. transcript_groupId r \<noteq> group_id sampleGroup)
              (transcripts sampleDatabase)"
    and "GroupUser_findAll (group_id sampleGroup) (Group_destroy rev sampleGroup sampleDatabase)
          = []"
    by blast+
  with p d1 d2 j show ?thesis
    by (simp add: sampleDatabase_def sampleGroup_def)
qed

subsection \<open>formatGroupName\<close>

lemma countLabel_not_oneOnOne: "s @ countLabelSuffix \<noteq> oneOnOneLabel"
proof
  assume eq: "s @ countLabelSuffix = oneOnOneLabel"
  have "drop (length (s @ countLabelSuffix) - 9) (s @ countLabelSuffix) = countLabelSuffix"
    by (simp add: countLabelSuffix_def)
  moreover have "drop (length oneOnOneLabel - 9) oneOnOneLabel \<noteq> countLabelSuffix"
    by (simp add: oneOnOneLabel_def countLabelSuffix_def)
  ultimately show False using eq by simp
qed

text \<open>
  C9. \<open>formatGroupName\<close> returns the name whenever there is one. Without a name it
  returns the one-on-one label for a user count of 1 and of 2, and for every larger count
  the count-based label (the numeral of the count followed by the fixed suffix), which is
  never the one-on-one label. In particular \<open>formatGroupName(null, 1)\<close> and
  \<open>formatGroupName(null, 2)\<close> are the one-on-one label, \<open>formatGroupName(null, 5)\<close> is
  the count-based label of 5, and \<open>formatGroupName("Custom", 5)\<close> is \<open>"Custom"\<close>.
\<close>

theorem formatGroupName_spec:
  "formatGroupName encodeS (Some n) c = n
   \<and> formatGroupName encodeS None 1 = oneOnOneLabel
   \<and> formatGroupName encodeS None 2 = oneOnOneLabel
   \<and> (2 < c \<longrightarrow>
        formatGroupName encodeS None c = encodeS c @ countLabelSuffix
        \<and> formatGroupName encodeS None c \<noteq> oneOnOneLabel)
   \<and> formatGroupName encodeS None 5 = encodeS 5 @ countLabelSuffix
   \<and> formatGroupName encodeS (Some ''Custom'') 5 = ''Custom''"
  by (simp add: formatGroupName_def countLabel_not_oneOnOne)

theorem formatGroupName_spec_witness:
  "(2::int) < 7
   \<and> formatGroupName (\<lambda>_. [CHR 0xE4, CHR 0xB8, CHR 0x83]) None 7
       = [CHR 0xE4, CHR 0xB8, CHR 0x83] @ countLabelSuffix
   \<and> formatGroupName (\<lambda>_. [CHR 0xE4, CHR 0xB8, CHR 0x83]) None 7 \<noteq> oneOnOneLabel"
proof -
  have "(2::int) < 7" by simp
  with formatGroupName_spec [of "\<lambda>_. [CHR 0xE4, CHR 0xB8, CHR 0x83]" "''x''" 7]
  show ?thesis by blast
qed

end
